theory Spec2Isabelle
  imports Complex_Main "HOL-Library.Log_Nat"
begin

section \<open>Conventions of the embedding\<close>

text \<open>
  The theory embeds the two pieces of \<^verbatim>\<open>src/frontend/tkinter_app.py\<close> that carry
  behaviour: the session timer with its break scheduler (methods \<^verbatim>\<open>start_session\<close>,
  \<^verbatim>\<open>pause_session\<close>, \<^verbatim>\<open>stop_session\<close>, \<^verbatim>\<open>update_timer\<close> of class
  \<^verbatim>\<open>ModernTkinterApp\<close>) and the aggregation of health samples (class
  \<^verbatim>\<open>HealthDataManager\<close>).

  \<^item> A Python float is a finite double, represented by the rational number that it is
    exactly. Comparisons are the exact ones. Every arithmetic operation on floats returns
    the rounding \<open>fl\<close> of its exact result, and \<^verbatim>\<open>sum\<close> over floats is a function
    \<open>fsum\<close>; both belong to an arithmetic that every definition takes as an argument.
    The properties are proved for every arithmetic. \<open>double_arith\<close> is the arithmetic of
    CPython: binary64 with rounding to nearest, ties to even, and \<^verbatim>\<open>sum\<close> adding from
    left to right (as CPython does up to version 3.11). Infinities, NaN and overflow are
    not represented.
  \<^item> A \<^verbatim>\<open>datetime\<close> is an instant in seconds on the rational line,
    \<^verbatim>\<open>timedelta(minutes=m)\<close> is \<open>60 * m\<close> seconds, and their sums and differences
    are exact, as in Python. \<^verbatim>\<open>(a - b).total_seconds()\<close> is the float \<open>fl (a - b)\<close>.
    The range limits of \<^verbatim>\<open>datetime\<close> and \<^verbatim>\<open>timedelta\<close> (years 1 to 9999, at most
    999999999 days), beyond which Python raises OverflowError, are not modelled: a setting
    from 1 to 30 minutes stays within them at every clock reading that is more than an hour
    inside the range.
  \<^item> Every call of \<^verbatim>\<open>datetime.now()\<close> is a separate reading of the clock, so each
    operation takes one argument per reading, in the order of the source.
  \<^item> An exception is a value: operations return \<open>py_error + result\<close>.
  \<^item> Widget configuration, message texts and window handling are left out; what the timer
    shows and which pop-up appears is returned as a value.
\<close>

datatype py_error = TypeError | ZeroDivisionError

subsection \<open>Float arithmetic\<close>

record arith =
  fl :: "rat \<Rightarrow> rat"
  fsum :: "rat list \<Rightarrow> rat"

text \<open>The nearest integer, a tie going to the even one.\<close>

definition round_half_even :: "rat \<Rightarrow> int" where
  "round_half_even x =
     (let f = \<lfloor>x\<rfloor>; d = x - of_int f
      in if d < 1 / 2 then f else if 1 / 2 < d then f + 1 else if even f then f else f + 1)"

definition pow2 :: "int \<Rightarrow> rat" where
  "pow2 e = (if 0 \<le> e then 2 ^ nat e else 1 / 2 ^ nat (- e))"

text \<open>For \<open>x > 0\<close>, the exponent \<open>k\<close> with \<open>2\<^sup>k \<le> x < 2\<^sup>k\<^sup>+\<^sup>1\<close>.\<close>

definition floor_log2 :: "rat \<Rightarrow> int" where
  "floor_log2 x =
     (case quotient_of x of
        (p, q) \<Rightarrow> (let k = bitlen p - bitlen q in if pow2 k \<le> x then k else k - 1))"

text \<open>Rounding to binary64: 53 significant bits, least exponent \<open>-1074\<close>, to nearest
  with ties to even.\<close>

definition round_double :: "rat \<Rightarrow> rat" where
  "round_double x =
     (if x = 0 then 0
      else (let e = max (floor_log2 \<bar>x\<bar> - 52) (- 1074)
            in of_int (round_half_even (x / pow2 e)) * pow2 e))"

definition double_arith :: arith where
  "double_arith =
     \<lparr> fl = round_double, fsum = foldl (\<lambda>acc x. round_double (acc + x)) 0 \<rparr>"

section \<open>Session timer and break scheduler\<close>

subsection \<open>State\<close>

text \<open>The attributes set under "App state" and "Break scheduling state" in
  \<^verbatim>\<open>ModernTkinterApp.__init__\<close> (lines 322-336).\<close>

record app_state =
  session_running :: bool
  session_paused :: bool
  session_start_time :: "rat option"
  session_elapsed :: rat
  break_freq_minutes :: int
  break_len_minutes :: int
  in_break :: bool
  next_break_time :: "rat option"
  break_end_time :: "rat option"

definition init_state :: app_state where
  "init_state =
     \<lparr> session_running = False, session_paused = False, session_start_time = None,
       session_elapsed = 0, break_freq_minutes = 5, break_len_minutes = 5,
       in_break = False, next_break_time = None, break_end_time = None \<rparr>"

definition timedelta_minutes :: "int \<Rightarrow> rat" where
  "timedelta_minutes m = 60 * of_int m"

text \<open>What one call of \<^verbatim>\<open>update_timer\<close> shows: the two numbers of the timer label
  (\<^verbatim>\<open>f"{minutes:02d}:{seconds:02d}"\<close>), the "Break complete" pop-up with the break
  length it quotes, and whether the call scheduled itself again with
  \<^verbatim>\<open>root.after(1000, ...)\<close>.\<close>

record timer_effects =
  timer_label :: "int \<times> int"
  break_complete_popup :: "int option"
  rescheduled :: bool

subsection \<open>update_timer\<close>

text \<open>Lines 1604-1607: the elapsed time that the label shows, a float sum of
  \<^verbatim>\<open>session_elapsed\<close> and the float \<^verbatim>\<open>total_seconds()\<close>. Subtracting from
  \<^verbatim>\<open>session_start_time\<close> while it is still \<^verbatim>\<open>None\<close> raises TypeError.\<close>

definition current_elapsed :: "arith \<Rightarrow> rat \<Rightarrow> app_state \<Rightarrow> py_error + rat" where
  "current_elapsed ar now s =
     (if session_running s \<and> \<not> session_paused s then
        (case session_start_time s of
           None \<Rightarrow> Inl TypeError
         | Some st \<Rightarrow> Inr (fl ar (session_elapsed s + fl ar (now - st))))
      else Inr (session_elapsed s))"

text \<open>Lines 1609-1610: \<^verbatim>\<open>int(e // 60)\<close> and \<^verbatim>\<open>int(e % 60)\<close>; Python's floor
  division and modulo, which are exact on a float \<open>e \<ge> 0\<close>, so the second component lies
  in \<open>[0, 60)\<close> and \<^verbatim>\<open>int\<close> is its floor.\<close>

definition label_of :: "rat \<Rightarrow> int \<times> int" where
  "label_of e = (\<lfloor>e / 60\<rfloor>, \<lfloor>e - 60 * of_int \<lfloor>e / 60\<rfloor>\<rfloor>)"

text \<open>Lines 1620-1622, the first \<^verbatim>\<open>if\<close> of the break scheduler. A \<^verbatim>\<open>datetime\<close> is
  always truthy, so \<^verbatim>\<open>self.next_break_time and ...\<close> tests for \<^verbatim>\<open>None\<close>.\<close>

definition enter_break :: "rat \<Rightarrow> app_state \<Rightarrow> app_state" where
  "enter_break now s =
     (if \<not> in_break s \<and> (case next_break_time s of None \<Rightarrow> False | Some nb \<Rightarrow> nb \<le> now)
      then s\<lparr> in_break := True,
               break_end_time := Some (now + timedelta_minutes (break_len_minutes s)) \<rparr>
      else s)"

text \<open>Lines 1625-1634, the second \<^verbatim>\<open>if\<close>, which runs on the state the first one
  left.\<close>

definition exit_break :: "rat \<Rightarrow> app_state \<Rightarrow> app_state \<times> int option" where
  "exit_break now s =
     (if in_break s \<and> (case break_end_time s of None \<Rightarrow> False | Some be \<Rightarrow> be \<le> now)
      then (s\<lparr> in_break := False,
                next_break_time := Some (now + timedelta_minutes (break_freq_minutes s)),
                break_end_time := None \<rparr>,
            Some (break_len_minutes s))
      else (s, None))"

text \<open>Lines 1616-1634: the break scheduler, skipped unless the session runs and is not
  paused.\<close>

definition break_scheduler :: "rat \<Rightarrow> app_state \<Rightarrow> app_state \<times> int option" where
  "break_scheduler now s =
     (if session_running s \<and> \<not> session_paused s then exit_break now (enter_break now s)
      else (s, None))"

text \<open>\<^verbatim>\<open>update_timer\<close> (lines 1602-1637). \<open>t_label\<close> is the clock reading of line
  1605 (made only when the session runs unpaused), \<open>t_break\<close> the one of line 1617.\<close>

definition update_timer ::
  "arith \<Rightarrow> rat \<Rightarrow> rat \<Rightarrow> app_state \<Rightarrow> py_error + app_state \<times> timer_effects" where
  "update_timer ar t_label t_break s =
     (case current_elapsed ar t_label s of
        Inl e \<Rightarrow> Inl e
      | Inr ce \<Rightarrow>
          (case break_scheduler t_break s of
             (s', popup) \<Rightarrow>
               Inr (s', \<lparr> timer_label = label_of ce, break_complete_popup = popup,
                          rescheduled = session_running s' \<rparr>)))"

subsection \<open>start_session\<close>

text \<open>\<^verbatim>\<open>start_session\<close> (lines 1488-1525). \<open>t_sched\<close> is the clock reading of line
  1499, \<open>t_start\<close> the one of line 1504; the last two are those of the closing call of
  \<^verbatim>\<open>update_timer\<close>. There is no test of the current state and none of the two
  arguments.\<close>

definition start_session ::
  "arith \<Rightarrow> int \<Rightarrow> int \<Rightarrow> rat \<Rightarrow> rat \<Rightarrow> rat \<Rightarrow> rat \<Rightarrow> app_state \<Rightarrow>
     py_error + app_state \<times> timer_effects" where
  "start_session ar break_freq break_len t_sched t_start t_label t_break s =
     update_timer ar t_label t_break
       (s\<lparr> break_freq_minutes := break_freq,
            break_len_minutes := break_len,
            in_break := False,
            next_break_time := Some (t_sched + timedelta_minutes break_freq),
            break_end_time := None,
            session_running := True,
            session_paused := False,
            session_start_time := Some t_start,
            session_elapsed := 0 \<rparr>)"

text \<open>The two read-only boxes of the setup dialog (lines 1398-1403 and 1418-1423) offer
  these values; its "Start session" button passes the chosen ones to
  \<^verbatim>\<open>start_session\<close>.\<close>

definition combobox_values :: "int list" where
  "combobox_values = [1, 5, 10, 15, 30]"

subsection \<open>pause_session\<close>

text \<open>\<^verbatim>\<open>pause_session\<close> (lines 1527-1547): one button that toggles
  \<^verbatim>\<open>session_paused\<close>. \<open>now\<close> is the clock reading of line 1535 or of line 1541,
  whichever branch runs. The result is \<open>None\<close> for the effects when the method returned at
  its guard.\<close>

definition pause_session ::
  "arith \<Rightarrow> rat \<Rightarrow> rat \<Rightarrow> rat \<Rightarrow> app_state \<Rightarrow>
     py_error + app_state \<times> timer_effects option" where
  "pause_session ar now t_label t_break s =
     (if \<not> session_running s then Inr (s, None)
      else
        (let s1 = s\<lparr> session_paused := \<not> session_paused s \<rparr> in
         (case (if session_paused s1 then
                  (case session_start_time s1 of
                     None \<Rightarrow> Inl TypeError
                   | Some st \<Rightarrow>
                       Inr (s1\<lparr> session_elapsed :=
                                   fl ar (session_elapsed s1 + fl ar (now - st)) \<rparr>))
                else Inr (s1\<lparr> session_start_time := Some now \<rparr>)) of
            Inl e \<Rightarrow> Inl e
          | Inr s2 \<Rightarrow>
              (case update_timer ar t_label t_break s2 of
                 Inl e \<Rightarrow> Inl e
               | Inr (s3, eff) \<Rightarrow> Inr (s3, Some eff)))))"

subsection \<open>stop_session\<close>

text \<open>What \<^verbatim>\<open>stop_session\<close> shows: the minutes and seconds of lines 1585-1586 and
  whether the "Session Complete" box (\<open>True\<close>) or the "Session Too Short" box appeared.\<close>

record stop_effects =
  final_minutes :: int
  final_seconds :: int
  session_saved :: bool

text \<open>\<^verbatim>\<open>stop_session\<close> (lines 1549-1600). \<open>now\<close> is the clock reading of line 1556.\<close>

definition stop_session ::
  "arith \<Rightarrow> rat \<Rightarrow> app_state \<Rightarrow> py_error + app_state \<times> stop_effects option" where
  "stop_session ar now s =
     (if \<not> session_running s then Inr (s, None)
      else
        (case (if \<not> session_paused s then
                 (case session_start_time s of
                    None \<Rightarrow> Inl TypeError
                  | Some st \<Rightarrow>
                      Inr (s\<lparr> session_elapsed :=
                                 fl ar (session_elapsed s + fl ar (now - st)) \<rparr>))
               else Inr s) of
           Inl e \<Rightarrow> Inl e
         | Inr s1 \<Rightarrow>
             (let s2 = s1\<lparr> session_running := False, session_paused := False,
                            in_break := False, next_break_time := None,
                            break_end_time := None \<rparr>;
                  m = fst (label_of (session_elapsed s2));
                  sec = snd (label_of (session_elapsed s2))
              in Inr (s2, Some \<lparr> final_minutes = m, final_seconds = sec,
                                  session_saved = (0 < m) \<rparr>))))"

subsection \<open>Runs\<close>

text \<open>The four ways in which the state changes: the "Start session" button of the setup
  dialog, the "Pause"/"Resume" button, the "Stop & Save" button, and a timer callback.
  Each event carries its clock readings.\<close>

datatype event =
    Start int int rat rat rat rat
  | PauseResume rat rat rat
  | Stop rat
  | Tick rat rat

fun step :: "arith \<Rightarrow> event \<Rightarrow> app_state \<Rightarrow> py_error + app_state" where
  "step ar (Start f l t1 t2 t3 t4) s = map_sum id fst (start_session ar f l t1 t2 t3 t4 s)"
| "step ar (PauseResume t t3 t4) s = map_sum id fst (pause_session ar t t3 t4 s)"
| "step ar (Stop t) s = map_sum id fst (stop_session ar t s)"
| "step ar (Tick t3 t4) s = map_sum id fst (update_timer ar t3 t4 s)"

fun run :: "arith \<Rightarrow> event list \<Rightarrow> app_state \<Rightarrow> py_error + app_state" where
  "run ar [] s = Inr s"
| "run ar (e # es) s = (case step ar e s of Inl err \<Rightarrow> Inl err | Inr s' \<Rightarrow> run ar es s')"

inductive reachable :: "arith \<Rightarrow> app_state \<Rightarrow> bool" for ar :: arith where
  reachable_init: "reachable ar init_state"
| reachable_step: "reachable ar s \<Longrightarrow> step ar e s = Inr s' \<Longrightarrow> reachable ar s'"

section \<open>Health data aggregation\<close>

subsection \<open>Numbers\<close>

text \<open>Python's true division \<^verbatim>\<open>a / b\<close>, which raises ZeroDivisionError on a zero
  divisor and otherwise returns the rounded quotient.\<close>

definition py_truediv :: "arith \<Rightarrow> rat \<Rightarrow> rat \<Rightarrow> py_error + rat" where
  "py_truediv ar a b = (if b = 0 then Inl ZeroDivisionError else Inr (fl ar (a / b)))"

text \<open>The decimal number with \<open>n\<close> digits after the point that is nearest to \<open>x\<close>, a tie
  going to the even last digit. \<^verbatim>\<open>round(x, n)\<close> is the float nearest to that decimal of
  the exact value of the float \<open>x\<close>; the format \<^verbatim>\<open>f"{x:.1f}"\<close> prints the decimal
  itself.\<close>

definition decimal_round :: "rat \<Rightarrow> nat \<Rightarrow> rat" where
  "decimal_round x n = of_int (round_half_even (x * 10 ^ n)) / 10 ^ n"

definition py_round :: "arith \<Rightarrow> rat \<Rightarrow> nat \<Rightarrow> rat" where
  "py_round ar x n = fl ar (decimal_round x n)"

text \<open>\<^verbatim>\<open>int(x)\<close> on a float: truncation towards zero.\<close>

definition py_int :: "rat \<Rightarrow> int" where
  "py_int x = (if 0 \<le> x then \<lfloor>x\<rfloor> else \<lceil>x\<rceil>)"

subsection \<open>Samples and their source\<close>

text \<open>One data point, the dictionary built in lines 117-126 and 272-286.\<close>

record sample =
  timestamp :: string
  focus_score :: rat
  posture_score :: rat
  phone_usage_seconds :: rat
  noise_level :: rat
  recommendations :: "string list"
  cycle :: int
  agent_status :: string

text \<open>A log entry as \<^verbatim>\<open>get_recent_health_data\<close> reads it: its timestamp in ISO
  format (\<open>None\<close> when the entry has none) and its payload when that is a dictionary,
  each key of which may be missing.\<close>

record payload =
  payload_focus_score :: "rat option"
  payload_posture_score :: "rat option"
  payload_phone_usage_seconds :: "rat option"
  payload_noise_level :: "rat option"
  payload_recommendations :: "string list option"
  payload_cycle :: "int option"
  payload_agent_status :: "string option"

record log_entry =
  entry_timestamp :: "string option"
  entry_payload :: "payload option"

text \<open>The sample source at a call: no logging client was created, the query returned the
  listed entries (newest first), or something inside the \<^verbatim>\<open>try\<close> block raised.\<close>

datatype cloud_logging = No_client | Entries "log_entry list" | Fetch_raises

text \<open>\<^verbatim>\<open>dict.get(key, default)\<close>.\<close>

definition get_default :: "'a option \<Rightarrow> 'a \<Rightarrow> 'a" where
  "get_default v d = (case v of None \<Rightarrow> d | Some x \<Rightarrow> x)"

text \<open>Lines 116-127: the data point of an entry, none for an entry without a dictionary
  payload. \<open>utcnow\<close> is \<^verbatim>\<open>datetime.utcnow().isoformat()\<close>. The values of the payload
  are taken to have the types of the data model (numbers, a list of strings); the default
  \<^verbatim>\<open>0.3\<close> is the float nearest to 3/10.\<close>

definition data_point :: "arith \<Rightarrow> string \<Rightarrow> log_entry \<Rightarrow> sample option" where
  "data_point ar utcnow entry =
     (case entry_payload entry of
        None \<Rightarrow> None
      | Some p \<Rightarrow>
          Some \<lparr> timestamp = get_default (entry_timestamp entry) utcnow,
                 focus_score = get_default (payload_focus_score p) (1 / 2),
                 posture_score = get_default (payload_posture_score p) (1 / 2),
                 phone_usage_seconds = get_default (payload_phone_usage_seconds p) 0,
                 noise_level = get_default (payload_noise_level p) (fl ar (3 / 10)),
                 recommendations = get_default (payload_recommendations p) [],
                 cycle = get_default (payload_cycle p) 0,
                 agent_status = get_default (payload_agent_status p) ''unknown'' \<rparr>)"

text \<open>\<^verbatim>\<open>_generate_sample_data\<close> (lines 263-288): twenty samples. The random draws of
  iteration \<open>i\<close> (three calls of \<^verbatim>\<open>random.uniform\<close> rounded to 3 decimals, one rounded
  to 1 decimal, one \<^verbatim>\<open>random.choice\<close> among four lists of recommendations) and the
  timestamp text of iteration \<open>i\<close> are arguments.\<close>

record draw =
  draw_focus :: rat
  draw_posture :: rat
  draw_phone :: rat
  draw_noise :: rat
  draw_recommendations :: "string list"

definition generate_sample_data ::
  "arith \<Rightarrow> (nat \<Rightarrow> string) \<Rightarrow> (nat \<Rightarrow> draw) \<Rightarrow> sample list" where
  "generate_sample_data ar stamp rnd =
     map (\<lambda>i. \<lparr> timestamp = stamp i,
                focus_score = py_round ar (draw_focus (rnd i)) 3,
                posture_score = py_round ar (draw_posture (rnd i)) 3,
                phone_usage_seconds = py_round ar (draw_phone (rnd i)) 1,
                noise_level = py_round ar (draw_noise (rnd i)) 3,
                recommendations = draw_recommendations (rnd i),
                cycle = 100 - int i,
                agent_status = ''operational'' \<rparr>) [0..<20]"

text \<open>\<^verbatim>\<open>get_recent_health_data\<close> (lines 90-134). Without a client, and when the query
  raises, the result is the generated sample data.\<close>

definition get_recent_health_data ::
  "arith \<Rightarrow> cloud_logging \<Rightarrow> string \<Rightarrow> (nat \<Rightarrow> string) \<Rightarrow> (nat \<Rightarrow> draw) \<Rightarrow>
     sample list" where
  "get_recent_health_data ar source utcnow stamp rnd =
     (case source of
        No_client \<Rightarrow> generate_sample_data ar stamp rnd
      | Entries entries \<Rightarrow> List.map_filter (data_point ar utcnow) entries
      | Fetch_raises \<Rightarrow> generate_sample_data ar stamp rnd)"

subsection \<open>The summary\<close>

text \<open>\<^verbatim>\<open>_calculate_health_grade\<close> (lines 243-261), each operation rounded, in the
  order in which Python evaluates them.\<close>

definition calculate_health_grade :: "arith \<Rightarrow> rat \<Rightarrow> rat \<Rightarrow> rat \<Rightarrow> rat \<Rightarrow> string" where
  "calculate_health_grade ar focus posture phone_time noise =
     (let focus_score = fl ar (focus * 100);
          posture_score = fl ar (posture * 100);
          phone_penalty = min (fl ar (fl ar (phone_time / 300) * 20)) 20;
          noise_penalty = fl ar (noise * 30);
          overall =
            fl ar (fl ar (fl ar (fl ar (focus_score + posture_score) - phone_penalty) -
              noise_penalty) / 2)
      in if 85 \<le> overall then ''A''
         else if 75 \<le> overall then ''B''
         else if 65 \<le> overall then ''C''
         else if 55 \<le> overall then ''D''
         else ''F'')"

text \<open>One gauge of the live data: the number that its text shows (a percentage cut to an
  integer, or minutes with one decimal) and its status. The thresholds \<^verbatim>\<open>0.7\<close>,
  \<^verbatim>\<open>0.4\<close>, \<^verbatim>\<open>0.3\<close> and \<^verbatim>\<open>0.6\<close> of the source are floats.\<close>

datatype gauge_value = Percent int | Minutes rat

record gauge =
  gauge_value :: gauge_value
  gauge_status :: string

record live_data =
  postureScore :: gauge
  phoneUsage :: gauge
  noiseLevel :: gauge
  focusScore :: gauge

text \<open>\<^verbatim>\<open>_generate_live_data_from_recent\<close> (lines 206-241).\<close>

definition generate_live_data_from_recent :: "arith \<Rightarrow> sample list \<Rightarrow> py_error + live_data" where
  "generate_live_data_from_recent ar data =
     (if data = [] then
        Inr \<lparr> postureScore = \<lparr> gauge_value = Percent 75, gauge_status = ''good'' \<rparr>,
              phoneUsage = \<lparr> gauge_value = Minutes (23 / 10), gauge_status = ''ok'' \<rparr>,
              noiseLevel = \<lparr> gauge_value = Percent 28, gauge_status = ''good'' \<rparr>,
              focusScore = \<lparr> gauge_value = Percent 64, gauge_status = ''warn'' \<rparr> \<rparr>
      else
        (let recent_entries = take 5 data;
             n = of_nat (length recent_entries)
         in case py_truediv ar (fsum ar (map posture_score recent_entries)) n of
              Inl e \<Rightarrow> Inl e
            | Inr avg_posture \<Rightarrow>
          (case py_truediv ar (fsum ar (map focus_score recent_entries)) n of
              Inl e \<Rightarrow> Inl e
            | Inr avg_focus \<Rightarrow>
          (case py_truediv ar (fsum ar (map noise_level recent_entries)) n of
              Inl e \<Rightarrow> Inl e
            | Inr avg_noise \<Rightarrow>
          (let total_phone = fsum ar (map phone_usage_seconds recent_entries)
           in Inr
             \<lparr> postureScore =
                 \<lparr> gauge_value = Percent (py_int (fl ar (avg_posture * 100))),
                   gauge_status = (if fl ar (7 / 10) < avg_posture then ''good''
                                   else if fl ar (4 / 10) < avg_posture then ''warn''
                                   else ''bad'') \<rparr>,
               phoneUsage =
                 \<lparr> gauge_value = Minutes (decimal_round (fl ar (total_phone / 60)) 1),
                   gauge_status = (if total_phone < 300 then ''good''
                                   else if total_phone < 900 then ''warn'' else ''bad'') \<rparr>,
               noiseLevel =
                 \<lparr> gauge_value = Percent (py_int (fl ar (avg_noise * 100))),
                   gauge_status = (if avg_noise < fl ar (3 / 10) then ''good''
                                   else if avg_noise < fl ar (6 / 10) then ''warn''
                                   else ''bad'') \<rparr>,
               focusScore =
                 \<lparr> gauge_value = Percent (py_int (fl ar (avg_focus * 100))),
                   gauge_status = (if fl ar (7 / 10) < avg_focus then ''good''
                                   else if fl ar (4 / 10) < avg_focus then ''warn''
                                   else ''bad'') \<rparr> \<rparr>)))))"

text \<open>Lines 157-158: the mean focus of a part of the window, with the full-window average
  in its place when the part is empty.\<close>

definition subset_focus :: "arith \<Rightarrow> sample list \<Rightarrow> rat \<Rightarrow> py_error + rat" where
  "subset_focus ar part avg_focus =
     (if part \<noteq> [] then
        py_truediv ar (fsum ar (map focus_score part)) (of_nat (length part))
      else Inr avg_focus)"

text \<open>Line 160.\<close>

definition focus_trend_of :: "rat \<Rightarrow> rat \<Rightarrow> string" where
  "focus_trend_of recent older =
     (if older < recent then ''improving''
      else if recent < older then ''declining''
      else ''stable'')"

text \<open>Lines 168-170: the counting dictionary. A Python dictionary keeps its keys in the
  order of their first insertion, so it is a list of pairs with distinct keys;
  \<open>dict_incr\<close> is \<^verbatim>\<open>rec_counts[rec] = rec_counts.get(rec, 0) + 1\<close>.\<close>

fun dict_incr :: "string \<Rightarrow> (string \<times> nat) list \<Rightarrow> (string \<times> nat) list" where
  "dict_incr r [] = [(r, 1)]"
| "dict_incr r ((k, c) # kvs) = (if k = r then (k, c + 1) # kvs else (k, c) # dict_incr r kvs)"

definition rec_counts :: "string list \<Rightarrow> (string \<times> nat) list" where
  "rec_counts all_recommendations = foldl (\<lambda>d r. dict_incr r d) [] all_recommendations"

text \<open>\<^verbatim>\<open>sorted(items, key=lambda x: x[1], reverse=True)\<close>. Python's sort is stable, and
  with \<^verbatim>\<open>reverse=True\<close> it sorts the reversed list in ascending order and reverses the
  result, which keeps items of equal key in their original order.\<close>

definition sorted_by_count_reverse :: "(string \<times> nat) list \<Rightarrow> (string \<times> nat) list" where
  "sorted_by_count_reverse items = rev (sort_key snd (rev items))"

text \<open>Lines 163-165: the loop that extends \<^verbatim>\<open>all_recommendations\<close> with the list of
  each entry, in the order of the entries.\<close>

definition all_recommendations_of :: "sample list \<Rightarrow> string list" where
  "all_recommendations_of data =
     foldl (\<lambda>all_recommendations entry. all_recommendations @ recommendations entry) [] data"

text \<open>Lines 167-172.\<close>

definition top_recommendations_of :: "sample list \<Rightarrow> (string \<times> nat) list" where
  "top_recommendations_of data =
     take 5 (sorted_by_count_reverse (rec_counts (all_recommendations_of data)))"

text \<open>The dictionary that a successful call returns (lines 177-204), one field per key;
  the keys of the nested dictionaries \<^verbatim>\<open>averages\<close>, \<^verbatim>\<open>totals\<close>, \<^verbatim>\<open>trends\<close> and
  \<^verbatim>\<open>metrics\<close> carry the name of their dictionary.\<close>

record summary =
  data_points :: nat
  time_range_hours :: int
  averages_focus_score :: rat
  averages_posture_score :: rat
  averages_noise_level :: rat
  totals_phone_usage_seconds :: rat
  totals_phone_usage_minutes :: rat
  trends_focus_trend :: string
  trends_recent_focus :: rat
  trends_older_focus :: rat
  top_recommendations :: "(string \<times> nat) list"
  health_grade :: string
  last_updated :: string
  live_data :: live_data
  metrics_distraction_level :: rat
  metrics_focus_score :: rat
  metrics_posture_score :: rat

datatype health_summary = No_data string | Success summary

fun status :: "health_summary \<Rightarrow> string" where
  "status (No_data m) = ''no_data''"
| "status (Success s) = ''success''"

text \<open>Lines 140-204 of \<^verbatim>\<open>get_health_summary\<close>: the summary of the data that the source
  returned.\<close>

definition summarize ::
  "arith \<Rightarrow> int \<Rightarrow> string \<Rightarrow> sample list \<Rightarrow> py_error + health_summary" where
  "summarize ar hours utcnow data =
     (if data = [] then Inr (No_data ''No health data available'')
      else
        (let total_points = length data in
         case py_truediv ar (fsum ar (map focus_score data)) (of_nat total_points) of
           Inl e \<Rightarrow> Inl e
         | Inr avg_focus \<Rightarrow>
         (case py_truediv ar (fsum ar (map posture_score data)) (of_nat total_points) of
           Inl e \<Rightarrow> Inl e
         | Inr avg_posture \<Rightarrow>
         (let total_phone_time = fsum ar (map phone_usage_seconds data) in
          case py_truediv ar (fsum ar (map noise_level data)) (of_nat total_points) of
           Inl e \<Rightarrow> Inl e
         | Inr avg_noise \<Rightarrow>
         (let recent_data = (if 6 < total_points then take (total_points div 3) data else data);
              older_data = (if 6 < total_points then drop (total_points div 3) data else data)
          in case subset_focus ar recent_data avg_focus of
           Inl e \<Rightarrow> Inl e
         | Inr recent_focus \<Rightarrow>
         (case subset_focus ar older_data avg_focus of
           Inl e \<Rightarrow> Inl e
         | Inr older_focus \<Rightarrow>
         (case generate_live_data_from_recent ar data of
           Inl e \<Rightarrow> Inl e
         | Inr live \<Rightarrow>
             Inr (Success
               \<lparr> data_points = total_points,
                 time_range_hours = hours,
                 averages_focus_score = py_round ar avg_focus 3,
                 averages_posture_score = py_round ar avg_posture 3,
                 averages_noise_level = py_round ar avg_noise 3,
                 totals_phone_usage_seconds = py_round ar total_phone_time 1,
                 totals_phone_usage_minutes = py_round ar (fl ar (total_phone_time / 60)) 1,
                 trends_focus_trend = focus_trend_of recent_focus older_focus,
                 trends_recent_focus = py_round ar recent_focus 3,
                 trends_older_focus = py_round ar older_focus 3,
                 top_recommendations = top_recommendations_of data,
                 health_grade =
                   calculate_health_grade ar avg_focus avg_posture total_phone_time avg_noise,
                 last_updated = (case data of [] \<Rightarrow> utcnow | d # _ \<Rightarrow> timestamp d),
                 live_data = live,
                 metrics_distraction_level =
                   py_round ar (fl ar (fl ar (1 - avg_focus) * 100)) 1,
                 metrics_focus_score = py_round ar (fl ar (avg_focus * 100)) 1,
                 metrics_posture_score = py_round ar (fl ar (avg_posture * 100)) 1 \<rparr>))))))))"

text \<open>\<^verbatim>\<open>get_health_summary\<close> (lines 136-204).\<close>

definition get_health_summary ::
  "arith \<Rightarrow> int \<Rightarrow> cloud_logging \<Rightarrow> string \<Rightarrow> (nat \<Rightarrow> string) \<Rightarrow> (nat \<Rightarrow> draw) \<Rightarrow>
     py_error + health_summary" where
  "get_health_summary ar hours source utcnow stamp rnd =
     summarize ar hours utcnow (get_recent_health_data ar source utcnow stamp rnd)"

section \<open>Notions used to state the properties of the session timer\<close>

text \<open>The facts that every operation keeps: a running session has a start time and a next
  break time, and is in a break exactly when an end of the break is set; an idle one has
  nothing set.\<close>

definition schedule_inv :: "app_state \<Rightarrow> bool" where
  "schedule_inv s =
     (if session_running s
      then next_break_time s \<noteq> None \<and> session_start_time s \<noteq> None \<and>
           (in_break s \<longleftrightarrow> break_end_time s \<noteq> None)
      else \<not> in_break s \<and> next_break_time s = None \<and> break_end_time s = None \<and>
           \<not> session_paused s)"

text \<open>The state one minute into a session with a one-minute break every minute.\<close>

definition break_state :: app_state where
  "break_state =
     \<lparr> session_running = True, session_paused = False, session_start_time = Some 0,
       session_elapsed = 0, break_freq_minutes = 1, break_len_minutes = 1,
       in_break = True, next_break_time = Some 60, break_end_time = Some 120 \<rparr>"

text \<open>A session with a break every five minutes, 100 seconds after its start; and the same
  session after "Pause" was pressed at that instant.\<close>

definition running_state :: app_state where
  "running_state =
     \<lparr> session_running = True, session_paused = False, session_start_time = Some 0,
       session_elapsed = 0, break_freq_minutes = 5, break_len_minutes = 5,
       in_break = False, next_break_time = Some 300, break_end_time = None \<rparr>"

definition paused_state :: app_state where
  "paused_state =
     \<lparr> session_running = True, session_paused = True, session_start_time = Some 0,
       session_elapsed = 100, break_freq_minutes = 5, break_len_minutes = 5,
       in_break = False, next_break_time = Some 300, break_end_time = None \<rparr>"

text \<open>Runs that consist of presses of the pause button and of timer callbacks only.\<close>

definition pause_tick_only :: "event list \<Rightarrow> bool" where
  "pause_tick_only es =
     list_all (\<lambda>e. case e of PauseResume _ _ _ \<Rightarrow> True | Tick _ _ \<Rightarrow> True | _ \<Rightarrow> False) es"

text \<open>The instants at which the pause button was pressed: the clock readings that
  \<^verbatim>\<open>pause_session\<close> itself makes.\<close>

fun toggles :: "event list \<Rightarrow> rat list" where
  "toggles [] = []"
| "toggles (PauseResume t _ _ # es) = t # toggles es"
| "toggles (_ # es) = toggles es"

text \<open>The wall-clock time spent running unpaused up to \<open>now\<close>, for a session that runs
  from \<open>t0\<close> and whose pause button is pressed at the given instants (pause, resume,
  pause, ...): the sum of the lengths of the intervals between a start or resume and the
  next pause, and of the interval from the last resume to \<open>now\<close>.\<close>

fun time_running :: "rat \<Rightarrow> rat list \<Rightarrow> rat \<Rightarrow> rat" where
  "time_running t0 [] now = now - t0"
| "time_running t0 [p] now = p - t0"
| "time_running t0 (p # r # ts) now = (p - t0) + time_running r ts now"

text \<open>The same intervals added as floats: each length is rounded to a float, and the
  lengths are added one after the other, each sum rounded, to the float \<open>acc\<close> that has
  been banked before. The second function is the same for a session that is paused at
  first.\<close>

fun float_time_running :: "arith \<Rightarrow> rat \<Rightarrow> rat \<Rightarrow> rat list \<Rightarrow> rat \<Rightarrow> rat" where
  "float_time_running ar acc t0 [] now = fl ar (acc + fl ar (now - t0))"
| "float_time_running ar acc t0 [p] now = fl ar (acc + fl ar (p - t0))"
| "float_time_running ar acc t0 (p # r # ts) now =
     float_time_running ar (fl ar (acc + fl ar (p - t0))) r ts now"

fun float_time_paused :: "arith \<Rightarrow> rat \<Rightarrow> rat list \<Rightarrow> rat \<Rightarrow> rat" where
  "float_time_paused ar acc [] now = acc"
| "float_time_paused ar acc (r # ts) now = float_time_running ar acc r ts now"

text \<open>The arithmetic without rounding.\<close>

definition exact_arith :: arith where
  "exact_arith = \<lparr> fl = (\<lambda>x. x), fsum = sum_list \<rparr>"

text \<open>A run in which the session runs for 0.3, 32.3 and 27.4 seconds, 60 seconds in all,
  with two pauses in between, and the state in which it leaves a session started at 0: the
  banked time is the double 32.599999999999994.\<close>

definition three_intervals :: "event list" where
  "three_intervals =
     [PauseResume (3 / 10) (3 / 10) (3 / 10), PauseResume 1 1 1,
      PauseResume (333 / 10) (333 / 10) (333 / 10), PauseResume 40 40 40]"

definition three_intervals_state :: app_state where
  "three_intervals_state =
     \<lparr> session_running = True, session_paused = False, session_start_time = Some 40,
       session_elapsed = 1147010530095923 / 35184372088832, break_freq_minutes = 5,
       break_len_minutes = 5, in_break = False, next_break_time = Some 300,
       break_end_time = None \<rparr>"

definition clock_ok :: "app_state \<Rightarrow> bool" where
  "clock_ok s \<longleftrightarrow> session_running s \<and> session_start_time s \<noteq> None"

text \<open>Timer callbacks once a second, at the seconds \<open>a, ..., b - 1\<close>.\<close>

definition ticks :: "nat \<Rightarrow> nat \<Rightarrow> event list" where
  "ticks a b = map (\<lambda>k. Tick (of_nat k) (of_nat k)) [a..<b]"

text \<open>The clock reading against which an event evaluates the break scheduler.\<close>

fun scheduler_instant :: "event \<Rightarrow> rat option" where
  "scheduler_instant (Start _ _ _ _ _ t) = Some t"
| "scheduler_instant (PauseResume _ _ t) = Some t"
| "scheduler_instant (Tick _ t) = Some t"
| "scheduler_instant (Stop _) = None"

text \<open>The instants of a run at which the break machine enters a break (\<open>in_break\<close> turns
  true) and at which it leaves one (\<open>in_break\<close> turns false).\<close>

fun break_entries :: "arith \<Rightarrow> event list \<Rightarrow> app_state \<Rightarrow> rat list" where
  "break_entries ar [] s = []"
| "break_entries ar (e # es) s =
     (case step ar e s of
        Inl _ \<Rightarrow> []
      | Inr s' \<Rightarrow>
          (case scheduler_instant e of
             Some t \<Rightarrow> if \<not> in_break s \<and> in_break s' then t # break_entries ar es s'
                       else break_entries ar es s'
           | None \<Rightarrow> break_entries ar es s'))"

fun break_exits :: "arith \<Rightarrow> event list \<Rightarrow> app_state \<Rightarrow> rat list" where
  "break_exits ar [] s = []"
| "break_exits ar (e # es) s =
     (case step ar e s of
        Inl _ \<Rightarrow> []
      | Inr s' \<Rightarrow>
          (case scheduler_instant e of
             Some t \<Rightarrow> if in_break s \<and> \<not> in_break s' then t # break_exits ar es s'
                       else break_exits ar es s'
           | None \<Rightarrow> break_exits ar es s'))"

text \<open>Two runs of a session with a one-minute break every minute, the timer firing once a
  second: one without a pause, and one that is paused from second 10 to second 70.\<close>

definition unpaused_run :: "event list" where
  "unpaused_run = Start 1 1 0 0 0 0 # ticks 1 130"

definition paused_run :: "event list" where
  "paused_run =
     Start 1 1 0 0 0 0 # ticks 1 10 @ [PauseResume 10 10 10] @ ticks 11 70 @
     [PauseResume 70 70 70] @ ticks 71 190"

text \<open>No transition of the break machine can happen at an evaluation before \<open>T\<close>: the
  session is paused, or the instant it waits for (the end of the break when in a break,
  else the next break) is not before \<open>T\<close>.\<close>

definition quiet_before :: "rat \<Rightarrow> app_state \<Rightarrow> bool" where
  "quiet_before T s \<longleftrightarrow>
     session_running s \<and> session_start_time s \<noteq> None \<and>
     (session_paused s \<or>
      (if in_break s then (case break_end_time s of None \<Rightarrow> False | Some be \<Rightarrow> T \<le> be)
       else (case next_break_time s of None \<Rightarrow> False | Some nb \<Rightarrow> T \<le> nb)))"

text \<open>A session with a one-minute break every minute, started at 0: as it runs during
  its first ten seconds, and after it was paused at second 10.\<close>

definition running_early :: app_state where
  "running_early =
     \<lparr> session_running = True, session_paused = False, session_start_time = Some 0,
       session_elapsed = 0, break_freq_minutes = 1, break_len_minutes = 1,
       in_break = False, next_break_time = Some 60, break_end_time = None \<rparr>"

definition paused_early :: app_state where
  "paused_early =
     \<lparr> session_running = True, session_paused = True, session_start_time = Some 0,
       session_elapsed = 10, break_freq_minutes = 1, break_len_minutes = 1,
       in_break = False, next_break_time = Some 60, break_end_time = None \<rparr>"

section \<open>Notions used to state the properties of the aggregation\<close>

text \<open>The mean of one field over a window as the code computes it, \<^verbatim>\<open>sum(...) / len(...)\<close>:
  the float sum of the values in the order of the window, divided by their number. The two
  parts of the window that the trend compares.\<close>

definition mean_of :: "arith \<Rightarrow> (sample \<Rightarrow> rat) \<Rightarrow> sample list \<Rightarrow> rat" where
  "mean_of ar f xs = fl ar (fsum ar (map f xs) / of_nat (length xs))"

definition recent_part :: "sample list \<Rightarrow> sample list" where
  "recent_part data = (if 6 < length data then take (length data div 3) data else data)"

definition older_part :: "sample list \<Rightarrow> sample list" where
  "older_part data = (if 6 < length data then drop (length data div 3) data else data)"



text \<open>A sample with the given focus, posture, phone usage, noise and recommendations.\<close>

definition sample_of :: "rat \<Rightarrow> rat \<Rightarrow> rat \<Rightarrow> rat \<Rightarrow> string list \<Rightarrow> sample" where
  "sample_of f p ph n recs =
     \<lparr> timestamp = ''2025-10-04T12:00:00'', focus_score = f, posture_score = p,
       phone_usage_seconds = ph, noise_level = n, recommendations = recs, cycle = 0,
       agent_status = ''operational'' \<rparr>"




text \<open>Two windows of seven samples whose two newest have a focus just above
  (0.500244140625), respectively just below (0.499755859375), the focus 0.5 of the five
  older ones.\<close>

definition near_tie_up :: "sample list" where
  "near_tie_up =
     [sample_of (2049 / 4096) (1 / 2) 0 0 [], sample_of (2049 / 4096) (1 / 2) 0 0 [],
      sample_of (1 / 2) (1 / 2) 0 0 [], sample_of (1 / 2) (1 / 2) 0 0 [],
      sample_of (1 / 2) (1 / 2) 0 0 [], sample_of (1 / 2) (1 / 2) 0 0 [],
      sample_of (1 / 2) (1 / 2) 0 0 []]"

definition near_tie_down :: "sample list" where
  "near_tie_down =
     [sample_of (2047 / 4096) (1 / 2) 0 0 [], sample_of (2047 / 4096) (1 / 2) 0 0 [],
      sample_of (1 / 2) (1 / 2) 0 0 [], sample_of (1 / 2) (1 / 2) 0 0 [],
      sample_of (1 / 2) (1 / 2) 0 0 [], sample_of (1 / 2) (1 / 2) 0 0 [],
      sample_of (1 / 2) (1 / 2) 0 0 []]"


text \<open>The entries of a query that yield no data point, and one run of the sample
  generator: every draw the same, every timestamp the same text.\<close>

definition no_payload :: "log_entry list \<Rightarrow> bool" where
  "no_payload entries = list_all (\<lambda>e. entry_payload e = None) entries"

definition demo_draw :: "nat \<Rightarrow> draw" where
  "demo_draw i =
     \<lparr> draw_focus = 13 / 20, draw_posture = 3 / 5, draw_phone = 45 / 2, draw_noise = 7 / 20,
       draw_recommendations = [] \<rparr>"

definition demo_stamp :: "nat \<Rightarrow> string" where
  "demo_stamp i = ''2025-10-04T12:00:00''"

definition bare_entry :: log_entry where
  "bare_entry = \<lparr> entry_timestamp = Some ''2025-10-04T12:00:00'', entry_payload = None \<rparr>"

text \<open>The position at which a recommendation is first seen in the flattened list, and the
  ranking order of the counted recommendations: a greater count first, and among equal
  counts the recommendation that was seen first.\<close>

definition first_index :: "'a list \<Rightarrow> 'a \<Rightarrow> nat" where
  "first_index xs x = length (takeWhile (\<lambda>y. y \<noteq> x) xs)"

definition ranks_before :: "string list \<Rightarrow> string \<times> nat \<Rightarrow> string \<times> nat \<Rightarrow> bool" where
  "ranks_before all a b \<longleftrightarrow>
     snd b < snd a \<or> (snd a = snd b \<and> first_index all (fst a) < first_index all (fst b))"

text \<open>What the counting dictionary is after the recommendations \<open>seen\<close>: one entry for
  each of them, with its number of occurrences, in the order in which they were first
  seen.\<close>

definition counts_of :: "(string \<times> nat) list \<Rightarrow> string list \<Rightarrow> bool" where
  "counts_of d seen \<longleftrightarrow>
     distinct (map fst d) \<and> fst ` set d = set seen \<and>
     list_all (\<lambda>e. snd e = count_list seen (fst e)) d \<and>
     sorted_wrt (\<lambda>a b. first_index seen (fst a) < first_index seen (fst b)) d"

text \<open>A window of three samples with seven different recommendations, one of them seen
  three times and one twice.\<close>

definition rec_window :: "sample list" where
  "rec_window =
     [sample_of (1 / 2) (1 / 2) 0 0
        [''Focus on alignment'', ''Good posture'', ''Brief phone check''],
      sample_of (1 / 2) (1 / 2) 0 0
        [''Good posture'', ''Brief phone check'', ''Minor shoulder imbalance''],
      sample_of (1 / 2) (1 / 2) 0 0
        [''Excellent posture!'', ''Raise monitor'', ''Take a break'', ''Brief phone check'']]"

section \<open>Properties of the session timer\<close>

lemmas session_defs =
  init_state_def start_session_def pause_session_def stop_session_def update_timer_def
  current_elapsed_def break_scheduler_def enter_break_def exit_break_def
  timedelta_minutes_def

lemma label_of_0: "label_of 0 = (0, 0)"
  by (simp add: label_of_def)

lemma label_of_70: "label_of 70 = (1, 10)"
  by code_simp

lemma label_of_100: "label_of 100 = (1, 40)"
  by code_simp

text \<open>Whole numbers of seconds are doubles.\<close>

lemma double_whole:
  "fl double_arith 0 = 0" "fl double_arith 10 = 10" "fl double_arith 70 = 70"
  "fl double_arith 100 = 100"
  by code_simp+

subsection \<open>Runs of timer callbacks\<close>

text \<open>Callbacks before the instant that the break machine waits for, and callbacks of a
  paused session, leave the state as it is.\<close>

lemma tick_quiet:
  assumes "quiet_before T s" "b < T"
  shows "step ar (Tick a b) s = Inr s"
  using assms
  by (auto simp: quiet_before_def update_timer_def current_elapsed_def break_scheduler_def
        enter_break_def exit_break_def split: option.splits if_splits)

lemma quiet_tick_list:
  assumes "quiet_before T s" "\<forall>k\<in>set ks. of_nat k < T"
  shows "run ar (map (\<lambda>k. Tick (of_nat k) (of_nat k)) ks @ es) s = run ar es s \<and>
         break_entries ar (map (\<lambda>k. Tick (of_nat k) (of_nat k)) ks @ es) s = break_entries ar es s \<and>
         break_exits ar (map (\<lambda>k. Tick (of_nat k) (of_nat k)) ks @ es) s = break_exits ar es s"
  using assms
proof (induction ks)
  case Nil
  then show ?case by simp
next
  case (Cons k ks)
  then have "step ar (Tick (of_nat k) (of_nat k)) s = Inr s"
    by (intro tick_quiet [where T = T]) auto
  with Cons show ?case by simp
qed

lemma quiet_ticks:
  assumes "quiet_before (of_nat b) s"
  shows "run ar (ticks a b @ es) s = run ar es s"
    and "break_entries ar (ticks a b @ es) s = break_entries ar es s"
    and "break_exits ar (ticks a b @ es) s = break_exits ar es s"
  using quiet_tick_list [OF assms, of "[a..<b]" ar es] by (simp_all add: ticks_def)

lemma quiet_ticks_end:
  assumes "quiet_before (of_nat b) s"
  shows "run ar (ticks a b) s = Inr s"
    and "break_entries ar (ticks a b) s = []"
    and "break_exits ar (ticks a b) s = []"
  using quiet_ticks [OF assms, of ar a "[]"] by simp_all

lemma ticks_split:
  assumes "a \<le> b" "b < c"
  shows "ticks a c = ticks a b @ Tick (of_nat b) (of_nat b) # ticks (Suc b) c"
proof -
  from assms have "[a..<c] = [a..<b] @ b # [Suc b..<c]"
    by (metis le_Suc_ex less_imp_le_nat upt_add_eq_append upt_conv_Cons)
  then show ?thesis by (simp add: ticks_def)
qed

lemma ticks_last: "a \<le> b \<Longrightarrow> ticks a (Suc b) = ticks a b @ [Tick (of_nat b) (of_nat b)]"
  by (simp add: ticks_def)

subsection \<open>The break schedule of a running session\<close>

lemma schedule_inv_init: "schedule_inv init_state"
  by (simp add: schedule_inv_def init_state_def)

lemma break_scheduler_inv:
  "schedule_inv s \<Longrightarrow> break_scheduler now s = (s', p) \<Longrightarrow> schedule_inv s'"
  by (auto simp: schedule_inv_def break_scheduler_def enter_break_def exit_break_def
           split: if_splits option.splits)

lemma update_timer_inv:
  "schedule_inv s \<Longrightarrow> update_timer ar a b s = Inr (s', eff) \<Longrightarrow> schedule_inv s'"
  by (auto simp: update_timer_def split: sum.splits prod.splits dest: break_scheduler_inv)

lemma start_session_inv:
  "start_session ar f l t1 t2 t3 t4 s = Inr (s', eff) \<Longrightarrow> schedule_inv s'"
  unfolding start_session_def
  by (erule update_timer_inv[rotated]) (simp add: schedule_inv_def)

lemma pause_session_inv:
  "schedule_inv s \<Longrightarrow> pause_session ar t a b s = Inr (s', eff) \<Longrightarrow> schedule_inv s'"
  unfolding pause_session_def Let_def
  apply (simp split: if_splits sum.splits option.splits prod.splits)
   apply (auto dest!: update_timer_inv[rotated] simp: schedule_inv_def)
  done

lemma stop_session_inv:
  "schedule_inv s \<Longrightarrow> stop_session ar t s = Inr (s', eff) \<Longrightarrow> schedule_inv s'"
  unfolding stop_session_def Let_def
  by (auto simp: schedule_inv_def split: if_splits sum.splits option.splits)

lemma step_inv: "schedule_inv s \<Longrightarrow> step ar e s = Inr s' \<Longrightarrow> schedule_inv s'"
  by (cases e)
     (auto simp: map_sum_def split: sum.splits
           dest: start_session_inv pause_session_inv stop_session_inv update_timer_inv)

lemma reachable_inv: "reachable ar s \<Longrightarrow> schedule_inv s"
  by (induction rule: reachable.induct) (auto intro: schedule_inv_init step_inv)

lemma run_reachable: "reachable ar s \<Longrightarrow> run ar es s = Inr s' \<Longrightarrow> reachable ar s'"
proof (induction es arbitrary: s)
  case Nil
  then show ?case by simp
next
  case (Cons e es)
  then show ?case
    by (cases "step ar e s") (auto intro: reachable_step)
qed

lemma stop_session_clears:
  assumes "schedule_inv s"
  shows "\<exists>s' eff. stop_session ar t s = Inr (s', eff) \<and> \<not> session_running s' \<and> \<not> in_break s' \<and>
            next_break_time s' = None \<and> break_end_time s' = None"
proof (cases "session_running s")
  case False
  with assms show ?thesis
    by (simp add: stop_session_def schedule_inv_def)
next
  case True
  with assms obtain st where "session_start_time s = Some st"
    by (auto simp: schedule_inv_def)
  with True show ?thesis
    by (simp add: stop_session_def Let_def)
qed

lemma run_break_state: "run ar (Start 1 1 0 0 0 0 # ticks 1 61) init_state = Inr break_state"
proof -
  have "ticks 1 61 = ticks 1 60 @ [Tick 60 60]"
    using ticks_last [of 1 60] by simp
  then show ?thesis
    by (simp add: session_defs quiet_ticks quiet_before_def break_state_def)
qed

lemma run_running_early:
  "run ar (Start 1 1 0 0 0 0 # ticks 1 60) init_state = Inr running_early"
  by (simp add: session_defs quiet_ticks_end quiet_before_def running_early_def)

lemma update_timer_frame:
  assumes "update_timer ar a b s = Inr (s', eff)"
  shows "(in_break s' \<longrightarrow> next_break_time s' = next_break_time s) \<and>
         (\<not> in_break s \<and> in_break s' \<longrightarrow>
            break_end_time s' = Some (b + timedelta_minutes (break_len_minutes s))) \<and>
         (next_break_time s' \<noteq> next_break_time s \<longrightarrow>
            \<not> in_break s' \<and> break_complete_popup eff \<noteq> None \<and>
            next_break_time s' = Some (b + timedelta_minutes (break_freq_minutes s)))"
  using assms
  by (auto simp: update_timer_def break_scheduler_def enter_break_def exit_break_def
        split: sum.splits if_splits option.splits)

text \<open>
  C1 (as the code has it). In every state that a sequence of start, pause/resume, stop and
  timer calls can reach from the initial one, so at every tick: while the session runs
  (paused or not) \<open>next_break_time\<close> is set, also during a break, and \<open>in_break\<close>
  holds exactly when \<open>break_end_time\<close> is set. A tick that enters a break sets
  \<open>break_end_time\<close> and leaves \<open>next_break_time\<close> as it was; a tick changes
  \<open>next_break_time\<close> only when it ends a break. \<open>stop_session\<close> returns a state in
  which \<open>in_break\<close> is false and both \<open>next_break_time\<close> and \<open>break_end_time\<close> are
  cleared.
\<close>

theorem break_schedule_invariant:
  assumes "reachable ar s"
  shows "(session_running s \<longrightarrow>
            next_break_time s \<noteq> None \<and> (in_break s \<longleftrightarrow> break_end_time s \<noteq> None)) \<and>
         (update_timer ar a b s = Inr (s', eff) \<longrightarrow>
            (in_break s' \<longrightarrow> next_break_time s' = next_break_time s) \<and>
            (\<not> in_break s \<and> in_break s' \<longrightarrow>
               break_end_time s' = Some (b + timedelta_minutes (break_len_minutes s))) \<and>
            (next_break_time s' \<noteq> next_break_time s \<longrightarrow>
               \<not> in_break s' \<and> break_complete_popup eff \<noteq> None \<and>
               next_break_time s' = Some (b + timedelta_minutes (break_freq_minutes s)))) \<and>
         (\<exists>s'' eff'. stop_session ar t s = Inr (s'', eff') \<and> \<not> session_running s'' \<and>
            \<not> in_break s'' \<and> next_break_time s'' = None \<and> break_end_time s'' = None)"
proof -
  have inv: "schedule_inv s"
    using assms by (rule reachable_inv)
  then have "session_running s \<longrightarrow>
      next_break_time s \<noteq> None \<and> (in_break s \<longleftrightarrow> break_end_time s \<noteq> None)"
    by (simp add: schedule_inv_def)
  with stop_session_clears [OF inv, of ar t] update_timer_frame [of ar a b s s' eff]
  show ?thesis
    by blast
qed

theorem break_schedule_invariant_witness:
  "reachable double_arith running_early \<and> session_running running_early \<and>
   \<not> in_break running_early \<and> next_break_time running_early = Some 60 \<and>
   break_end_time running_early = None \<and>
   (\<exists>eff. update_timer double_arith 60 60 running_early = Inr (break_state, eff)) \<and>
   in_break break_state \<and> next_break_time break_state = Some 60 \<and>
   break_end_time break_state = Some 120 \<and>
   reachable double_arith break_state \<and>
   (\<exists>s' eff. update_timer double_arith 120 120 break_state = Inr (s', eff) \<and>
      \<not> in_break s' \<and> break_complete_popup eff = Some 1 \<and> next_break_time s' = Some 180) \<and>
   (\<exists>s' eff. stop_session double_arith 70 break_state = Inr (s', eff) \<and>
      \<not> session_running s' \<and> \<not> in_break s' \<and> next_break_time s' = None \<and>
      break_end_time s' = None)"
proof -
  have r1: "reachable double_arith running_early"
    using reachable_init run_running_early by (rule run_reachable)
  have r2: "reachable double_arith break_state"
    using reachable_init run_break_state by (rule run_reachable)
  obtain eff1 where u1: "update_timer double_arith 60 60 running_early = Inr (break_state, eff1)"
    by (simp add: session_defs running_early_def break_state_def)
  obtain s2 eff2 where u2: "update_timer double_arith 120 120 break_state = Inr (s2, eff2)"
    "next_break_time s2 \<noteq> next_break_time break_state"
    by (simp add: session_defs break_state_def)
  have facts: "session_running running_early" "\<not> in_break running_early"
    "next_break_time running_early = Some 60" "break_end_time running_early = None"
    "in_break break_state" "break_len_minutes running_early = 1"
    "break_freq_minutes break_state = 1"
    by (simp_all add: running_early_def break_state_def)
  from break_schedule_invariant [OF r1, of 60 60 break_state eff1 70] u1 facts
  have "next_break_time break_state = Some 60" "break_end_time break_state = Some 120"
    by (simp_all add: timedelta_minutes_def)
  moreover from break_schedule_invariant [OF r2, of 120 120 s2 eff2 70] u2 facts
  have "\<not> in_break s2" "break_complete_popup eff2 = Some 1 \<or> break_complete_popup eff2 \<noteq> None"
    "next_break_time s2 = Some 180"
    "\<exists>s' eff. stop_session double_arith 70 break_state = Inr (s', eff) \<and>
      \<not> session_running s' \<and> \<not> in_break s' \<and> next_break_time s' = None \<and>
      break_end_time s' = None"
    by (simp_all add: timedelta_minutes_def)
  moreover have "break_complete_popup eff2 = Some 1"
    using u2(1) by (auto simp: session_defs break_state_def split: if_splits)
  ultimately show ?thesis
    using r1 r2 u1 u2(1) facts by blast
qed

text \<open>
  C1 as stated fails one minute into a session with a one-minute break every minute: the
  session runs unpaused, \<open>in_break\<close> is true and \<open>next_break_time\<close> is still set, so
  both members of the pair hold at that tick.
\<close>

theorem break_schedule_counterexample:
  "run double_arith (Start 1 1 0 0 0 0 # ticks 1 61) init_state = Inr break_state \<and>
   session_running break_state \<and> \<not> session_paused break_state \<and>
   in_break break_state \<and> next_break_time break_state = Some 60"
  using run_break_state [of double_arith] by (simp add: break_state_def)

subsection \<open>Starting a session\<close>

lemma update_timer_session_fields:
  "update_timer ar a b s = Inr (s', eff) \<Longrightarrow>
     session_running s' = session_running s \<and> session_paused s' = session_paused s \<and>
     session_start_time s' = session_start_time s \<and> session_elapsed s' = session_elapsed s \<and>
     break_freq_minutes s' = break_freq_minutes s \<and> break_len_minutes s' = break_len_minutes s"
  by (auto simp: update_timer_def break_scheduler_def enter_break_def exit_break_def
           split: sum.splits prod.splits if_splits)

lemma update_timer_ok:
  "session_running s \<longrightarrow> session_start_time s \<noteq> None \<Longrightarrow>
     \<exists>s' eff. update_timer ar a b s = Inr (s', eff)"
  by (auto simp: update_timer_def current_elapsed_def split: prod.splits)

lemma update_timer_not_due:
  assumes "session_running s" "session_start_time s = Some st" "\<not> in_break s"
    "next_break_time s = Some nb" "b < nb"
  shows "\<exists>eff. update_timer ar a b s = Inr (s, eff)"
  using assms
  by (simp add: update_timer_def current_elapsed_def break_scheduler_def enter_break_def
        exit_break_def)

lemma start_session_fresh:
  "start_session ar f l t1 t2 t3 t4 s =
     update_timer ar t3 t4
       \<lparr> session_running = True, session_paused = False, session_start_time = Some t2,
         session_elapsed = 0, break_freq_minutes = f, break_len_minutes = l,
         in_break = False, next_break_time = Some (t1 + timedelta_minutes f),
         break_end_time = None \<rparr>"
  by (cases s) (simp add: start_session_def)

lemma start_session_result:
  "\<exists>s' eff. start_session ar f l t1 t2 t3 t4 s = Inr (s', eff) \<and>
     session_running s' \<and> \<not> session_paused s' \<and> session_start_time s' = Some t2 \<and>
     session_elapsed s' = 0 \<and> break_freq_minutes s' = f \<and> break_len_minutes s' = l"
proof -
  let ?s0 = "\<lparr> session_running = True, session_paused = False, session_start_time = Some t2,
         session_elapsed = 0, break_freq_minutes = f, break_len_minutes = l,
         in_break = False, next_break_time = Some (t1 + timedelta_minutes f),
         break_end_time = None \<rparr>"
  obtain s' eff where u: "update_timer ar t3 t4 ?s0 = Inr (s', eff)"
    using update_timer_ok [of ?s0 ar t3 t4] by auto
  from update_timer_session_fields [OF u] u show ?thesis
    by (simp add: start_session_fresh)
qed

lemma start_session_not_due:
  assumes "t4 < t1 + timedelta_minutes f"
  shows "\<exists>eff. start_session ar f l t1 t2 t3 t4 s =
     Inr (\<lparr> session_running = True, session_paused = False, session_start_time = Some t2,
         session_elapsed = 0, break_freq_minutes = f, break_len_minutes = l,
         in_break = False, next_break_time = Some (t1 + timedelta_minutes f),
         break_end_time = None \<rparr>, eff)"
  unfolding start_session_fresh
  by (rule update_timer_not_due [where st = t2 and nb = "t1 + timedelta_minutes f"])
     (use assms in simp_all)

lemma run_running_state: "run ar (Start 5 5 0 0 0 0 # ticks 1 101) init_state = Inr running_state"
  by (simp add: session_defs quiet_ticks_end quiet_before_def running_state_def)

lemma run_paused_state:
  "run double_arith (Start 5 5 0 0 0 0 # ticks 1 100 @ [PauseResume 100 100 100]) init_state =
     Inr paused_state"
  by (simp add: session_defs quiet_ticks quiet_before_def paused_state_def double_whole)

text \<open>
  C2 (as the code has it). \<open>start_session\<close> has no guard on the state: from every state,
  idle, running or paused, it returns what it returns from the initial state. The session
  it leaves runs unpaused with \<open>session_elapsed = 0\<close>, \<open>session_start_time\<close> the clock
  reading and the two settings stored; and unless the first break is already due at the
  closing evaluation, \<open>in_break\<close> is false, \<open>next_break_time\<close> is the clock reading plus
  the break frequency and \<open>break_end_time\<close> is cleared. From a running or paused session
  this is a restart, not a no-op.
\<close>

theorem start_session_restarts:
  "start_session ar f l t1 t2 t3 t4 s = start_session ar f l t1 t2 t3 t4 init_state \<and>
   (\<exists>s' eff. start_session ar f l t1 t2 t3 t4 s = Inr (s', eff) \<and>
      session_running s' \<and> \<not> session_paused s' \<and> session_start_time s' = Some t2 \<and>
      session_elapsed s' = 0 \<and> break_freq_minutes s' = f \<and> break_len_minutes s' = l \<and>
      (t4 < t1 + timedelta_minutes f \<longrightarrow>
         \<not> in_break s' \<and> next_break_time s' = Some (t1 + timedelta_minutes f) \<and>
         break_end_time s' = None))"
proof -
  have "start_session ar f l t1 t2 t3 t4 s = start_session ar f l t1 t2 t3 t4 init_state"
    by (simp add: start_session_fresh)
  moreover obtain s' eff where r: "start_session ar f l t1 t2 t3 t4 s = Inr (s', eff)"
    "session_running s'" "\<not> session_paused s'" "session_start_time s' = Some t2"
    "session_elapsed s' = 0" "break_freq_minutes s' = f" "break_len_minutes s' = l"
    using start_session_result by blast
  moreover have "\<not> in_break s' \<and> next_break_time s' = Some (t1 + timedelta_minutes f) \<and>
      break_end_time s' = None" if "t4 < t1 + timedelta_minutes f"
    using start_session_not_due [OF that, of ar l t2 t3 s] r(1) by auto
  ultimately show ?thesis by blast
qed

theorem start_session_restarts_witness:
  "start_session double_arith 5 5 200 200 200 200 paused_state =
     start_session double_arith 5 5 200 200 200 200 init_state \<and>
   (\<exists>s' eff. start_session double_arith 5 5 200 200 200 200 paused_state = Inr (s', eff) \<and>
      session_running s' \<and> \<not> session_paused s' \<and> session_start_time s' = Some 200 \<and>
      session_elapsed s' = 0 \<and> break_freq_minutes s' = 5 \<and> break_len_minutes s' = 5 \<and>
      \<not> in_break s' \<and> next_break_time s' = Some 500 \<and> break_end_time s' = None)"
proof -
  have due: "(200::rat) < 200 + timedelta_minutes 5" "200 + timedelta_minutes 5 = 500"
    by (simp_all add: timedelta_minutes_def)
  from start_session_restarts [of double_arith 5 5 200 200 200 200 paused_state] due(1)
  show ?thesis
    unfolding due(2) by blast
qed

text \<open>
  C2 as stated fails on a session that has run for 100 seconds, and on one paused at that
  instant: a call of \<open>start_session\<close> moves \<open>session_start_time\<close> and
  \<open>next_break_time\<close>, and on the paused session it also clears \<open>session_paused\<close> and
  the 100 seconds in \<open>session_elapsed\<close>.
\<close>

theorem start_session_noop_counterexample:
  "run double_arith (Start 5 5 0 0 0 0 # ticks 1 101) init_state = Inr running_state \<and>
   session_running running_state \<and>
   session_start_time running_state = Some 0 \<and> next_break_time running_state = Some 300 \<and>
   step double_arith (Start 5 5 100 100 100 100) running_state =
     Inr \<lparr> session_running = True, session_paused = False, session_start_time = Some 100,
           session_elapsed = 0, break_freq_minutes = 5, break_len_minutes = 5,
           in_break = False, next_break_time = Some 400, break_end_time = None \<rparr> \<and>
   run double_arith (Start 5 5 0 0 0 0 # ticks 1 100 @ [PauseResume 100 100 100]) init_state =
     Inr paused_state \<and>
   session_paused paused_state \<and> session_elapsed paused_state = 100 \<and>
   step double_arith (Start 5 5 200 200 200 200) paused_state =
     Inr \<lparr> session_running = True, session_paused = False, session_start_time = Some 200,
           session_elapsed = 0, break_freq_minutes = 5, break_len_minutes = 5,
           in_break = False, next_break_time = Some 500, break_end_time = None \<rparr>"
  using run_running_state [of double_arith] run_paused_state
  by (simp add: session_defs running_state_def paused_state_def)

text \<open>
  C5 (as the code has it). \<open>start_session\<close> does not test its two arguments. The
  supported set \<open>{1, 5, 10, 15, 30}\<close> is the list of choices of the boxes of the setup
  dialog; a call with other values is not rejected: for every break frequency and every
  break length from 1 to 30 minutes, in the set or not, \<open>start_session\<close> stores them
  as \<open>break_freq_minutes\<close> and \<open>break_len_minutes\<close> and starts the session.
\<close>

theorem start_session_takes_any_setting:
  assumes "1 \<le> f" "f \<le> 30" "1 \<le> l" "l \<le> 30"
  shows "set combobox_values = {1, 5, 10, 15, 30} \<and>
   (\<exists>s' eff. start_session ar f l t1 t2 t3 t4 s = Inr (s', eff) \<and>
      session_running s' \<and> break_freq_minutes s' = f \<and> break_len_minutes s' = l \<and>
      (t4 < t1 + timedelta_minutes f \<longrightarrow>
         next_break_time s' = Some (t1 + timedelta_minutes f)))"
proof -
  have "set combobox_values = {1, 5, 10, 15, 30}"
    by (simp add: combobox_values_def)
  moreover obtain s' eff where r: "start_session ar f l t1 t2 t3 t4 s = Inr (s', eff)"
    "session_running s'" "break_freq_minutes s' = f" "break_len_minutes s' = l"
    using start_session_result by blast
  moreover have "next_break_time s' = Some (t1 + timedelta_minutes f)"
    if "t4 < t1 + timedelta_minutes f"
    using start_session_not_due [OF that, of ar l t2 t3 s] r(1) by auto
  ultimately show ?thesis by blast
qed

theorem start_session_takes_any_setting_witness:
  "7 \<notin> set combobox_values \<and> 29 \<notin> set combobox_values \<and>
   (\<exists>s' eff. start_session double_arith 7 29 0 0 0 0 init_state = Inr (s', eff) \<and>
      session_running s' \<and> break_freq_minutes s' = 7 \<and> break_len_minutes s' = 29 \<and>
      next_break_time s' = Some 420)"
proof -
  have range: "(1::int) \<le> 7" "(7::int) \<le> 30" "(1::int) \<le> 29" "(29::int) \<le> 30"
    by simp_all
  have out: "7 \<notin> set combobox_values" "29 \<notin> set combobox_values"
    by (simp_all add: combobox_values_def)
  from start_session_takes_any_setting [OF range, of double_arith 0 0 0 0 init_state] out
  show ?thesis
    by (simp add: timedelta_minutes_def)
qed

text \<open>
  C5 as stated fails at a break frequency and a break length of 7 minutes, a value outside
  the supported set: the call is not rejected, and the idle initial state becomes a running
  session with both settings stored.
\<close>

theorem invalid_setting_counterexample:
  "7 \<notin> set combobox_values \<and>
   init_state =
     \<lparr> session_running = False, session_paused = False, session_start_time = None,
       session_elapsed = 0, break_freq_minutes = 5, break_len_minutes = 5,
       in_break = False, next_break_time = None, break_end_time = None \<rparr> \<and>
   start_session double_arith 7 7 0 0 0 0 init_state =
     Inr (\<lparr> session_running = True, session_paused = False, session_start_time = Some 0,
            session_elapsed = 0, break_freq_minutes = 7, break_len_minutes = 7,
            in_break = False, next_break_time = Some 420, break_end_time = None \<rparr>,
          \<lparr> timer_label = (0, 0), break_complete_popup = None, rescheduled = True \<rparr>)"
  by (simp add: session_defs label_of_0 double_whole combobox_values_def)

subsection \<open>Elapsed time over pauses\<close>

lemma step_tick_clock:
  assumes "clock_ok s"
  shows "\<exists>s'. step ar (Tick a b) s = Inr s' \<and> clock_ok s' \<and>
     session_paused s' = session_paused s \<and> session_start_time s' = session_start_time s \<and>
     session_elapsed s' = session_elapsed s"
proof -
  from assms obtain s' eff where u: "update_timer ar a b s = Inr (s', eff)"
    using update_timer_ok [of s ar a b] by (auto simp: clock_ok_def)
  from update_timer_session_fields [OF u] assms u show ?thesis
    by (auto simp: clock_ok_def)
qed

lemma step_pause_clock:
  assumes "clock_ok s" "\<not> session_paused s" "session_start_time s = Some st"
  shows "\<exists>s'. step ar (PauseResume t a b) s = Inr s' \<and> clock_ok s' \<and> session_paused s' \<and>
     session_elapsed s' = fl ar (session_elapsed s + fl ar (t - st))"
proof -
  let ?s2 = "s\<lparr>session_paused := True,
    session_elapsed := fl ar (session_elapsed s + fl ar (t - st))\<rparr>"
  obtain s' eff where u: "update_timer ar a b ?s2 = Inr (s', eff)"
    using update_timer_ok [of ?s2 ar a b] assms by (auto simp: clock_ok_def)
  have "pause_session ar t a b s = Inr (s', Some eff)"
    using assms u by (simp add: pause_session_def clock_ok_def Let_def)
  with update_timer_session_fields [OF u] assms show ?thesis
    by (auto simp: clock_ok_def)
qed

lemma step_resume_clock:
  assumes "clock_ok s" "session_paused s"
  shows "\<exists>s'. step ar (PauseResume t a b) s = Inr s' \<and> clock_ok s' \<and> \<not> session_paused s' \<and>
     session_start_time s' = Some t \<and> session_elapsed s' = session_elapsed s"
proof -
  let ?s2 = "s\<lparr>session_paused := False, session_start_time := Some t\<rparr>"
  obtain s' eff where u: "update_timer ar a b ?s2 = Inr (s', eff)"
    using update_timer_ok [of ?s2 ar a b] assms by (auto simp: clock_ok_def)
  have "pause_session ar t a b s = Inr (s', Some eff)"
    using assms u by (simp add: pause_session_def clock_ok_def Let_def)
  with update_timer_session_fields [OF u] assms show ?thesis
    by (auto simp: clock_ok_def)
qed

lemma float_time_running_pause:
  "float_time_running ar acc st (p # ts) now =
     float_time_paused ar (fl ar (acc + fl ar (p - st))) ts now"
  by (cases ts) simp_all

text \<open>The accounting, for a run from any running state.\<close>

lemma run_elapsed:
  assumes "pause_tick_only es" "clock_ok s" "session_start_time s = Some st"
  shows "\<exists>s'. run ar es s = Inr s' \<and> clock_ok s' \<and>
     (session_paused s' \<longleftrightarrow> (session_paused s \<noteq> odd (length (toggles es)))) \<and>
     current_elapsed ar now s' =
       Inr (if session_paused s then float_time_paused ar (session_elapsed s) (toggles es) now
            else float_time_running ar (session_elapsed s) st (toggles es) now)"
  using assms
proof (induction es arbitrary: s st)
  case Nil
  then show ?case by (auto simp: current_elapsed_def clock_ok_def)
next
  case (Cons e es)
  have es: "pause_tick_only es"
    using Cons.prems(1) by (simp add: pause_tick_only_def)
  show ?case
  proof (cases e)
    case (Tick a b)
    from step_tick_clock [OF Cons.prems(2), of ar a b] obtain s1 where
      s1: "step ar (Tick a b) s = Inr s1" "clock_ok s1" "session_paused s1 = session_paused s"
        "session_start_time s1 = session_start_time s" "session_elapsed s1 = session_elapsed s"
      by blast
    from Cons.IH [OF es s1(2), of st] s1 Cons.prems(3) Tick show ?thesis
      by auto
  next
    case (PauseResume t a b)
    show ?thesis
    proof (cases "session_paused s")
      case False
      from step_pause_clock [OF Cons.prems(2) False Cons.prems(3), of ar t a b] obtain s1 where
        s1: "step ar (PauseResume t a b) s = Inr s1" "clock_ok s1" "session_paused s1"
          "session_elapsed s1 = fl ar (session_elapsed s + fl ar (t - st))"
        by blast
      from s1(2) obtain st1 where st1: "session_start_time s1 = Some st1"
        by (auto simp: clock_ok_def)
      from Cons.IH [OF es s1(2) st1] s1 False PauseResume show ?thesis
        by (auto simp: float_time_running_pause simp del: float_time_running.simps)
    next
      case True
      from step_resume_clock [OF Cons.prems(2) True, of ar t a b] obtain s1 where
        s1: "step ar (PauseResume t a b) s = Inr s1" "clock_ok s1" "\<not> session_paused s1"
          "session_start_time s1 = Some t" "session_elapsed s1 = session_elapsed s"
        by blast
      from Cons.IH [OF es s1(2) s1(4)] s1 True PauseResume show ?thesis
        by auto
    qed
  next
    case (Start f l t1 t2 t3 t4)
    with Cons.prems(1) show ?thesis by (simp add: pause_tick_only_def)
  next
    case (Stop t)
    with Cons.prems(1) show ?thesis by (simp add: pause_tick_only_def)
  qed
qed

lemma run_from_start:
  assumes "pause_tick_only es"
  shows "\<exists>s'. run ar (Start f l t1 t2 t3 t4 # es) s = Inr s' \<and> clock_ok s' \<and>
     (session_paused s' \<longleftrightarrow> odd (length (toggles es))) \<and>
     current_elapsed ar now s' = Inr (float_time_running ar 0 t2 (toggles es) now)"
proof -
  obtain s1 eff where s1: "start_session ar f l t1 t2 t3 t4 s = Inr (s1, eff)"
    "session_running s1" "\<not> session_paused s1" "session_start_time s1 = Some t2"
    "session_elapsed s1 = 0"
    using start_session_result by blast
  then have "clock_ok s1" by (simp add: clock_ok_def)
  from run_elapsed [OF assms this s1(4), of ar now] s1 show ?thesis
    by auto
qed

lemma toggles_append: "toggles (es @ es') = toggles es @ toggles es'"
  by (induction es rule: toggles.induct) simp_all

lemma time_running_double: "time_running t0 (ts @ [t, t]) now = time_running t0 ts now"
  by (induction t0 ts now rule: time_running.induct) simp_all

lemma float_time_running_exact:
  "float_time_running exact_arith acc t0 ts now = acc + time_running t0 ts now"
  by (induction exact_arith acc t0 ts now rule: float_time_running.induct)
     (simp_all add: exact_arith_def)

lemma update_timer_label:
  assumes "current_elapsed ar a s = Inr ce"
  shows "\<exists>s' eff. update_timer ar a b s = Inr (s', eff) \<and> timer_label eff = label_of ce"
  using assms by (simp add: update_timer_def split: prod.splits)

text \<open>
  C6 (as the code has it). After a start, for every sequence of presses of the pause
  button and of timer callbacks: the run raises nothing; the session is paused exactly
  after an odd number of presses; the elapsed time that a tick at \<open>now\<close> computes,
  \<open>session_elapsed + (now - session_start_time)\<close> when running unpaused and
  \<open>session_elapsed\<close> otherwise, is the float sum, taken in order, of the float lengths of
  the intervals in which the session ran unpaused, and the label shows its minutes and
  seconds. This is the wall-clock time spent running unpaused up to the rounding of these
  additions; the two are equal in exact arithmetic. The button is a toggle, so a second
  press is not idempotent but undoes the first: two presses at one instant leave the
  session in the pause state it was in, and split the running interval in two without
  changing the wall-clock time spent running. On an idle application a press changes
  nothing.
\<close>

theorem elapsed_time_accounting:
  assumes "pause_tick_only es"
  shows "\<exists>s. run ar (Start f l t1 t2 t3 t4 # es) s0 = Inr s \<and>
           (session_paused s \<longleftrightarrow> odd (length (toggles es))) \<and>
           current_elapsed ar now s = Inr (float_time_running ar 0 t2 (toggles es) now) \<and>
           (\<exists>s' eff. update_timer ar now tb s = Inr (s', eff) \<and>
              timer_label eff = label_of (float_time_running ar 0 t2 (toggles es) now)) \<and>
           float_time_running exact_arith 0 t2 (toggles es) now =
             time_running t2 (toggles es) now \<and>
           (\<exists>s2. run ar (Start f l t1 t2 t3 t4 # es @ [PauseResume t a b, PauseResume t a' b'])
                    s0 = Inr s2 \<and>
              session_paused s2 = session_paused s \<and>
              current_elapsed ar now s2 =
                Inr (float_time_running ar 0 t2 (toggles es @ [t, t]) now)) \<and>
           time_running t2 (toggles es @ [t, t]) now = time_running t2 (toggles es) now \<and>
           (\<not> session_running s0 \<longrightarrow> pause_session ar t a b s0 = Inr (s0, None))"
proof -
  obtain s where s: "run ar (Start f l t1 t2 t3 t4 # es) s0 = Inr s"
    "session_paused s \<longleftrightarrow> odd (length (toggles es))"
    "current_elapsed ar now s = Inr (float_time_running ar 0 t2 (toggles es) now)"
    using run_from_start [OF assms] by blast
  let ?es2 = "es @ [PauseResume t a b, PauseResume t a' b']"
  have "pause_tick_only ?es2"
    using assms by (simp add: pause_tick_only_def)
  from run_from_start [OF this, of ar f l t1 t2 t3 t4 s0 now]
  obtain s2 where s2: "run ar (Start f l t1 t2 t3 t4 # ?es2) s0 = Inr s2"
    "session_paused s2 \<longleftrightarrow> odd (length (toggles ?es2))"
    "current_elapsed ar now s2 = Inr (float_time_running ar 0 t2 (toggles ?es2) now)"
    by blast
  have tg: "toggles ?es2 = toggles es @ [t, t]"
    by (simp add: toggles_append)
  with s2 s have "session_paused s2 = session_paused s"
    "current_elapsed ar now s2 = Inr (float_time_running ar 0 t2 (toggles es @ [t, t]) now)"
    by simp_all
  with s2(1) have double: "\<exists>s2. run ar (Start f l t1 t2 t3 t4 # ?es2) s0 = Inr s2 \<and>
      session_paused s2 = session_paused s \<and>
      current_elapsed ar now s2 = Inr (float_time_running ar 0 t2 (toggles es @ [t, t]) now)"
    by blast
  have exact: "float_time_running exact_arith 0 t2 (toggles es) now =
      time_running t2 (toggles es) now"
    by (simp add: float_time_running_exact)
  have idle: "\<not> session_running s0 \<longrightarrow> pause_session ar t a b s0 = Inr (s0, None)"
    by (simp add: pause_session_def)
  from s update_timer_label [OF s(3), of tb] double exact idle
    time_running_double [of t2 "toggles es" t now]
  show ?thesis
    by blast
qed

lemma double_70:
  "float_time_running double_arith 0 0 [10, 40] 100 = 70"
  "float_time_running double_arith 0 0 [10, 40, 50, 50] 100 = 70"
  "time_running 0 [10, 40] 100 = 70"
  by code_simp+

theorem elapsed_time_accounting_witness:
  "pause_tick_only [Tick 5 5, PauseResume 10 10 10, Tick 20 20, PauseResume 40 40 40] \<and>
   (\<exists>s. run double_arith (Start 5 5 0 0 0 0 #
             [Tick 5 5, PauseResume 10 10 10, Tick 20 20, PauseResume 40 40 40]) init_state
           = Inr s \<and>
      \<not> session_paused s \<and>
      current_elapsed double_arith 100 s = Inr 70 \<and>
      (\<exists>s' eff. update_timer double_arith 100 100 s = Inr (s', eff) \<and>
         timer_label eff = (1, 10)) \<and>
      (\<exists>s2. run double_arith (Start 5 5 0 0 0 0 #
                [Tick 5 5, PauseResume 10 10 10, Tick 20 20, PauseResume 40 40 40] @
                [PauseResume 50 50 50, PauseResume 50 50 50]) init_state = Inr s2 \<and>
         session_paused s2 = session_paused s \<and>
         current_elapsed double_arith 100 s2 = Inr 70)) \<and>
   time_running 0 [10, 40] 100 = 70 \<and>
   pause_session double_arith 50 50 50 init_state = Inr (init_state, None)"
proof -
  have p: "pause_tick_only [Tick 5 5, PauseResume 10 10 10, Tick 20 20, PauseResume 40 40 40]"
    by (simp add: pause_tick_only_def)
  have idle: "\<not> session_running init_state"
    by (simp add: init_state_def)
  from elapsed_time_accounting
    [OF p, of double_arith 5 5 0 0 0 0 init_state 100 100 50 50 50 50 50] p idle
  show ?thesis
    by (simp add: label_of_70 double_70
          del: float_time_running.simps time_running.simps) blast
qed

lemma run_three_intervals:
  "run double_arith (Start 5 5 0 0 0 0 # three_intervals) init_state =
     Inr three_intervals_state"
  by code_simp

lemma three_intervals_elapsed:
  "current_elapsed double_arith (337 / 5) three_intervals_state =
     Inr (8444249301319679 / 140737488355328)"
  "time_running 0 (toggles three_intervals) (337 / 5) = 60"
  "label_of (8444249301319679 / 140737488355328) = (0, 59)"
  by code_simp+

lemma three_intervals_stop:
  "stop_session double_arith (337 / 5) three_intervals_state =
     Inr (\<lparr> session_running = False, session_paused = False, session_start_time = Some 40,
            session_elapsed = 8444249301319679 / 140737488355328, break_freq_minutes = 5,
            break_len_minutes = 5, in_break = False, next_break_time = None,
            break_end_time = None \<rparr>,
          Some \<lparr> final_minutes = 0, final_seconds = 59, session_saved = False \<rparr>)"
  by code_simp

text \<open>
  C6 as stated fails in two ways. On the running session \<open>running_state\<close> one press of
  the button gives the paused session \<open>paused_state\<close> and a second press at the same
  instant gives a running session again, so the double call is not the single call. And a
  session that runs for 0.3, 32.3 and 27.4 seconds, 60 seconds of wall-clock time, reports
  59.99999999999999 seconds: the label shows 00:59 and \<open>stop_session\<close> finds the session
  too short to save.
\<close>

theorem pause_idempotent_counterexample:
  "pause_session double_arith 100 100 100 running_state =
     Inr (paused_state,
          Some \<lparr> timer_label = (1, 40), break_complete_popup = None, rescheduled = True \<rparr>) \<and>
   pause_session double_arith 100 100 100 paused_state =
     Inr (\<lparr> session_running = True, session_paused = False, session_start_time = Some 100,
            session_elapsed = 100, break_freq_minutes = 5, break_len_minutes = 5,
            in_break = False, next_break_time = Some 300, break_end_time = None \<rparr>,
          Some \<lparr> timer_label = (1, 40), break_complete_popup = None, rescheduled = True \<rparr>) \<and>
   session_paused paused_state \<and>
   run double_arith (Start 5 5 0 0 0 0 # three_intervals) init_state =
     Inr three_intervals_state \<and>
   time_running 0 (toggles three_intervals) (337 / 5) = 60 \<and>
   current_elapsed double_arith (337 / 5) three_intervals_state =
     Inr (8444249301319679 / 140737488355328) \<and>
   (8444249301319679 / 140737488355328 :: rat) < 60 \<and>
   label_of (8444249301319679 / 140737488355328) = (0, 59) \<and>
   stop_session double_arith (337 / 5) three_intervals_state =
     Inr (\<lparr> session_running = False, session_paused = False, session_start_time = Some 40,
            session_elapsed = 8444249301319679 / 140737488355328, break_freq_minutes = 5,
            break_len_minutes = 5, in_break = False, next_break_time = None,
            break_end_time = None \<rparr>,
          Some \<lparr> final_minutes = 0, final_seconds = 59, session_saved = False \<rparr>)"
proof -
  have toggle:
    "pause_session double_arith 100 100 100 running_state =
       Inr (paused_state,
            Some \<lparr> timer_label = (1, 40), break_complete_popup = None, rescheduled = True \<rparr>)"
    "pause_session double_arith 100 100 100 paused_state =
       Inr (\<lparr> session_running = True, session_paused = False, session_start_time = Some 100,
              session_elapsed = 100, break_freq_minutes = 5, break_len_minutes = 5,
              in_break = False, next_break_time = Some 300, break_end_time = None \<rparr>,
            Some \<lparr> timer_label = (1, 40), break_complete_popup = None, rescheduled = True \<rparr>)"
    "session_paused paused_state"
    by (simp_all add: session_defs label_of_100 double_whole running_state_def paused_state_def)
  have less: "(8444249301319679 / 140737488355328 :: rat) < 60"
    by simp
  from toggle run_three_intervals three_intervals_elapsed three_intervals_stop less
  show ?thesis
    by (intro conjI)
qed

subsection \<open>Pauses and the break deadlines\<close>

lemma unpaused_run_breaks:
  "break_entries ar unpaused_run init_state = [60] \<and> break_exits ar unpaused_run init_state = [120]"
proof -
  have split: "ticks 1 130 = ticks 1 60 @ Tick 60 60 # ticks 61 120 @ Tick 120 120 # ticks 121 130"
    using ticks_split [of 1 60 130] ticks_split [of 61 120 130] by simp
  show ?thesis
    unfolding unpaused_run_def split
    by (simp add: session_defs quiet_ticks quiet_ticks_end quiet_before_def)
qed

lemma paused_run_breaks:
  "break_entries ar paused_run init_state = [70] \<and> break_exits ar paused_run init_state = [130]"
proof -
  have split: "ticks 71 190 = ticks 71 130 @ Tick 130 130 # ticks 131 190"
    using ticks_split [of 71 130 190] by simp
  show ?thesis
    unfolding paused_run_def split
    by (simp add: session_defs quiet_ticks quiet_ticks_end quiet_before_def)
qed

lemma paused_tick_unchanged:
  assumes "session_running s" "session_paused s"
  shows "update_timer ar a b s =
     Inr (s, \<lparr> timer_label = label_of (session_elapsed s), break_complete_popup = None,
               rescheduled = True \<rparr>)"
  using assms by (simp add: update_timer_def current_elapsed_def break_scheduler_def)

lemma pausing_keeps_deadlines:
  assumes "session_running s" "\<not> session_paused s" "session_start_time s = Some st"
  shows "\<exists>eff. pause_session ar t a b s =
     Inr (s\<lparr> session_paused := True,
             session_elapsed := fl ar (session_elapsed s + fl ar (t - st)) \<rparr>, eff)"
  using assms
  by (simp add: pause_session_def Let_def update_timer_def current_elapsed_def
        break_scheduler_def)

lemma resuming_evaluates:
  assumes "session_running s" "session_paused s"
  shows "\<exists>eff. pause_session ar t a b s =
     Inr (fst (exit_break b (enter_break b
            (s\<lparr> session_paused := False, session_start_time := Some t \<rparr>))), eff)"
  using assms
  by (simp add: pause_session_def Let_def update_timer_def current_elapsed_def
        break_scheduler_def split: prod.splits)

text \<open>
  C3 (as the code has it). Pausing freezes the focus clock, not the break countdowns.
  \<open>next_break_time\<close> and \<open>break_end_time\<close> are wall-clock instants: pausing banks the
  elapsed time and changes nothing else, and a tick of a paused session changes nothing at
  all. Resuming evaluates the break machine at once against those same instants: a break
  that fell due during the pause begins at the resume instant, and a break not yet due
  stays due at its original instant, whatever the length of the pause.
\<close>

theorem pause_keeps_break_deadlines:
  assumes "session_running s" "session_start_time s = Some st"
  shows "(\<not> session_paused s \<longrightarrow>
            (\<exists>eff. pause_session ar t a b s =
               Inr (s\<lparr> session_paused := True,
                       session_elapsed := fl ar (session_elapsed s + fl ar (t - st)) \<rparr>,
                    eff))) \<and>
         (session_paused s \<longrightarrow>
            (\<exists>eff. update_timer ar a b s = Inr (s, eff)) \<and>
            (\<exists>s' eff. pause_session ar t a b s = Inr (s', eff) \<and>
               s' = fst (exit_break b (enter_break b
                      (s\<lparr> session_paused := False, session_start_time := Some t \<rparr>))) \<and>
               (\<forall>nb. \<not> in_break s \<and> next_break_time s = Some nb \<and> b < nb \<longrightarrow>
                  \<not> in_break s' \<and> next_break_time s' = Some nb \<and>
                  break_end_time s' = break_end_time s) \<and>
               (\<forall>nb. \<not> in_break s \<and> next_break_time s = Some nb \<and> nb \<le> b \<and>
                     0 < break_len_minutes s \<longrightarrow>
                  in_break s' \<and>
                  break_end_time s' = Some (b + timedelta_minutes (break_len_minutes s)))))"
proof (intro conjI impI)
  assume "\<not> session_paused s"
  with assms show "\<exists>eff. pause_session ar t a b s =
      Inr (s\<lparr> session_paused := True,
              session_elapsed := fl ar (session_elapsed s + fl ar (t - st)) \<rparr>, eff)"
    by (intro pausing_keeps_deadlines)
next
  assume "session_paused s"
  with assms(1) show "\<exists>eff. update_timer ar a b s = Inr (s, eff)"
    by (simp add: paused_tick_unchanged)
next
  assume p: "session_paused s"
  let ?s' = "fst (exit_break b (enter_break b
               (s\<lparr> session_paused := False, session_start_time := Some t \<rparr>)))"
  from resuming_evaluates [OF assms(1) p, of ar t a b]
  obtain eff where r: "pause_session ar t a b s = Inr (?s', eff)"
    by blast
  have not_due: "\<not> in_break ?s' \<and> next_break_time ?s' = Some nb \<and>
      break_end_time ?s' = break_end_time s"
    if "\<not> in_break s \<and> next_break_time s = Some nb \<and> b < nb" for nb
    using that by (simp add: enter_break_def exit_break_def)
  have due: "in_break ?s' \<and> break_end_time ?s' = Some (b + timedelta_minutes (break_len_minutes s))"
    if "\<not> in_break s \<and> next_break_time s = Some nb \<and> nb \<le> b \<and> 0 < break_len_minutes s" for nb
    using that by (simp add: enter_break_def exit_break_def timedelta_minutes_def)
  from r not_due due
  show "\<exists>s' eff. pause_session ar t a b s = Inr (s', eff) \<and> s' = ?s' \<and>
      (\<forall>nb. \<not> in_break s \<and> next_break_time s = Some nb \<and> b < nb \<longrightarrow>
         \<not> in_break s' \<and> next_break_time s' = Some nb \<and>
                  break_end_time s' = break_end_time s) \<and>
      (\<forall>nb. \<not> in_break s \<and> next_break_time s = Some nb \<and> nb \<le> b \<and>
            0 < break_len_minutes s \<longrightarrow>
         in_break s' \<and>
         break_end_time s' = Some (b + timedelta_minutes (break_len_minutes s)))"
    by blast
qed

theorem pause_keeps_break_deadlines_witness:
  "(\<exists>eff. pause_session double_arith 10 10 10 running_early = Inr (paused_early, eff)) \<and>
   (\<exists>eff. update_timer double_arith 30 30 paused_early = Inr (paused_early, eff)) \<and>
   (\<exists>s' eff. pause_session double_arith 30 30 30 paused_early = Inr (s', eff) \<and>
      \<not> in_break s' \<and> next_break_time s' = Some 60) \<and>
   (\<exists>s' eff. pause_session double_arith 70 70 70 paused_early = Inr (s', eff) \<and>
      in_break s' \<and> break_end_time s' = Some 130)"
proof -
  have r: "session_running running_early" "session_start_time running_early = Some 0"
    "\<not> session_paused running_early"
    "running_early\<lparr> session_paused := True,
        session_elapsed := fl double_arith (session_elapsed running_early +
          fl double_arith (10 - 0)) \<rparr> = paused_early"
    by (simp_all add: running_early_def paused_early_def double_whole)
  have p: "session_running paused_early" "session_start_time paused_early = Some 0"
    "session_paused paused_early" "\<not> in_break paused_early"
    "next_break_time paused_early = Some 60" "0 < break_len_minutes paused_early"
    "70 + timedelta_minutes (break_len_minutes paused_early) = 130"
    by (simp_all add: paused_early_def timedelta_minutes_def)
  from pause_keeps_break_deadlines [OF r(1,2), of double_arith 10 10 10] r(3,4)
  have "\<exists>eff. pause_session double_arith 10 10 10 running_early = Inr (paused_early, eff)"
    by simp
  moreover from pause_keeps_break_deadlines [OF p(1,2), of double_arith 30 30 30] p(3)
  have "\<exists>eff. update_timer double_arith 30 30 paused_early = Inr (paused_early, eff)"
    by blast
  moreover from pause_keeps_break_deadlines [OF p(1,2), of double_arith 30 30 30] p(3,4,5)
  have "\<exists>s' eff. pause_session double_arith 30 30 30 paused_early = Inr (s', eff) \<and>
      \<not> in_break s' \<and> next_break_time s' = Some 60"
    by force
  moreover from pause_keeps_break_deadlines [OF p(1,2), of double_arith 70 70 70] p(3,4,5,6,7)
  have "\<exists>s' eff. pause_session double_arith 70 70 70 paused_early = Inr (s', eff) \<and>
      in_break s' \<and> break_end_time s' = Some 130"
    by force
  ultimately show ?thesis by blast
qed

text \<open>
  C3 as stated fails on a session with a one-minute break every minute whose timer fires
  once a second. Unpaused, the break machine enters the break at second 60 and leaves it at
  second 120. Paused from second 10 to second 70, a pause of 60 seconds, it enters the break
  at second 70, the resume instant, and leaves it at second 130: ten seconds later than
  without the pause, not sixty.
\<close>

theorem pause_delay_counterexample:
  "break_entries double_arith unpaused_run init_state = [60] \<and>
   break_exits double_arith unpaused_run init_state = [120] \<and>
   break_entries double_arith paused_run init_state = [70] \<and>
   break_exits double_arith paused_run init_state = [130] \<and>
   break_entries double_arith paused_run init_state \<noteq>
     map (\<lambda>t. t + (70 - 10)) (break_entries double_arith unpaused_run init_state) \<and>
   break_exits double_arith paused_run init_state \<noteq>
     map (\<lambda>t. t + (70 - 10)) (break_exits double_arith unpaused_run init_state)"
  using unpaused_run_breaks [of double_arith] paused_run_breaks [of double_arith] by simp

section \<open>Properties of the aggregation\<close>

subsection \<open>The summary of a non-empty window\<close>

lemma py_truediv_length:
  "xs \<noteq> [] \<Longrightarrow>
     py_truediv ar (fsum ar (map f xs)) (of_nat (length xs)) = Inr (mean_of ar f xs)"
  by (simp add: py_truediv_def mean_of_def)

lemma parts_nonempty:
  assumes "data \<noteq> []"
  shows "recent_part data \<noteq> []" "older_part data \<noteq> []"
proof -
  have "0 < length data div 3" "length data div 3 < length data" if "6 < length data"
    using that by auto
  then show "recent_part data \<noteq> []" "older_part data \<noteq> []"
    using assms by (auto simp: recent_part_def older_part_def)
qed

lemma subset_focus_mean:
  "part \<noteq> [] \<Longrightarrow> subset_focus ar part avg = Inr (mean_of ar focus_score part)"
  by (simp add: subset_focus_def py_truediv_length)

lemma live_data_ok: "\<exists>live. generate_live_data_from_recent ar data = Inr live"
proof (cases "data = []")
  case True
  then show ?thesis by (simp add: generate_live_data_from_recent_def)
next
  case False
  then have d: "py_truediv ar x (of_nat (length (take 5 data))) =
      Inr (fl ar (x / of_nat (length (take 5 data))))" for x
    by (simp add: py_truediv_def)
  show ?thesis
    unfolding generate_live_data_from_recent_def Let_def d
    using False by simp
qed

lemma summarize_success:
  assumes "data \<noteq> []"
  shows "\<exists>live. generate_live_data_from_recent ar data = Inr live \<and>
    summarize ar hours utcnow data =
      Inr (Success
        \<lparr> data_points = length data,
          time_range_hours = hours,
          averages_focus_score = py_round ar (mean_of ar focus_score data) 3,
          averages_posture_score = py_round ar (mean_of ar posture_score data) 3,
          averages_noise_level = py_round ar (mean_of ar noise_level data) 3,
          totals_phone_usage_seconds = py_round ar (fsum ar (map phone_usage_seconds data)) 1,
          totals_phone_usage_minutes =
            py_round ar (fl ar (fsum ar (map phone_usage_seconds data) / 60)) 1,
          trends_focus_trend =
            focus_trend_of (mean_of ar focus_score (recent_part data))
              (mean_of ar focus_score (older_part data)),
          trends_recent_focus = py_round ar (mean_of ar focus_score (recent_part data)) 3,
          trends_older_focus = py_round ar (mean_of ar focus_score (older_part data)) 3,
          top_recommendations = top_recommendations_of data,
          health_grade =
            calculate_health_grade ar (mean_of ar focus_score data)
              (mean_of ar posture_score data) (fsum ar (map phone_usage_seconds data))
              (mean_of ar noise_level data),
          last_updated = timestamp (hd data),
          live_data = live,
          metrics_distraction_level =
            py_round ar (fl ar (fl ar (1 - mean_of ar focus_score data) * 100)) 1,
          metrics_focus_score = py_round ar (fl ar (mean_of ar focus_score data * 100)) 1,
          metrics_posture_score =
            py_round ar (fl ar (mean_of ar posture_score data * 100)) 1 \<rparr>)"
proof -
  obtain live where live: "generate_live_data_from_recent ar data = Inr live"
    using live_data_ok by blast
  have r: "subset_focus ar (if 6 < length data then take (length data div 3) data else data)
      avg = Inr (mean_of ar focus_score (recent_part data))" for avg
    using subset_focus_mean [OF parts_nonempty(1) [OF assms]] by (simp add: recent_part_def)
  have o: "subset_focus ar (if 6 < length data then drop (length data div 3) data else data)
      avg = Inr (mean_of ar focus_score (older_part data))" for avg
    using subset_focus_mean [OF parts_nonempty(2) [OF assms]] by (simp add: older_part_def)
  have h: "(case data of [] \<Rightarrow> utcnow | d # _ \<Rightarrow> timestamp d) = timestamp (hd data)"
    using assms by (cases data) simp_all
  show ?thesis
    unfolding summarize_def Let_def
    using assms live by (simp add: py_truediv_length r o h)
qed

text \<open>The fields of the summary that the properties below are about.\<close>

lemma summarize_fields:
  assumes "data \<noteq> []"
  shows "\<exists>s. summarize ar hours utcnow data = Inr (Success s) \<and>
    data_points s = length data \<and>
    averages_focus_score s = py_round ar (mean_of ar focus_score data) 3 \<and>
    averages_posture_score s = py_round ar (mean_of ar posture_score data) 3 \<and>
    averages_noise_level s = py_round ar (mean_of ar noise_level data) 3 \<and>
    totals_phone_usage_seconds s = py_round ar (fsum ar (map phone_usage_seconds data)) 1 \<and>
    totals_phone_usage_minutes s =
      py_round ar (fl ar (fsum ar (map phone_usage_seconds data) / 60)) 1 \<and>
    trends_focus_trend s =
      focus_trend_of (mean_of ar focus_score (recent_part data))
        (mean_of ar focus_score (older_part data)) \<and>
    trends_recent_focus s = py_round ar (mean_of ar focus_score (recent_part data)) 3 \<and>
    trends_older_focus s = py_round ar (mean_of ar focus_score (older_part data)) 3 \<and>
    top_recommendations s = top_recommendations_of data \<and>
    health_grade s =
      calculate_health_grade ar (mean_of ar focus_score data) (mean_of ar posture_score data)
        (fsum ar (map phone_usage_seconds data)) (mean_of ar noise_level data)"
proof -
  from summarize_success [OF assms, of ar hours utcnow] obtain live where
    "summarize ar hours utcnow data =
      Inr (Success
        \<lparr> data_points = length data,
          time_range_hours = hours,
          averages_focus_score = py_round ar (mean_of ar focus_score data) 3,
          averages_posture_score = py_round ar (mean_of ar posture_score data) 3,
          averages_noise_level = py_round ar (mean_of ar noise_level data) 3,
          totals_phone_usage_seconds = py_round ar (fsum ar (map phone_usage_seconds data)) 1,
          totals_phone_usage_minutes =
            py_round ar (fl ar (fsum ar (map phone_usage_seconds data) / 60)) 1,
          trends_focus_trend =
            focus_trend_of (mean_of ar focus_score (recent_part data))
              (mean_of ar focus_score (older_part data)),
          trends_recent_focus = py_round ar (mean_of ar focus_score (recent_part data)) 3,
          trends_older_focus = py_round ar (mean_of ar focus_score (older_part data)) 3,
          top_recommendations = top_recommendations_of data,
          health_grade =
            calculate_health_grade ar (mean_of ar focus_score data)
              (mean_of ar posture_score data) (fsum ar (map phone_usage_seconds data))
              (mean_of ar noise_level data),
          last_updated = timestamp (hd data),
          live_data = live,
          metrics_distraction_level =
            py_round ar (fl ar (fl ar (1 - mean_of ar focus_score data) * 100)) 1,
          metrics_focus_score = py_round ar (fl ar (mean_of ar focus_score data * 100)) 1,
          metrics_posture_score =
            py_round ar (fl ar (mean_of ar posture_score data * 100)) 1 \<rparr>)"
    by blast
  then show ?thesis by simp
qed

lemma mean_of_exact:
  "mean_of exact_arith f xs = sum_list (map f xs) / of_nat (length xs)"
  by (simp add: mean_of_def exact_arith_def)

subsection \<open>The health grade\<close>







subsection \<open>The focus trend\<close>

lemma focus_trend_of_cases:
  "(focus_trend_of recent older = ''improving'' \<longleftrightarrow> older < recent) \<and>
   (focus_trend_of recent older = ''declining'' \<longleftrightarrow> recent < older) \<and>
   (focus_trend_of recent older = ''stable'' \<longleftrightarrow> recent = older)"
  by (auto simp: focus_trend_of_def)






subsection \<open>Rounding of the reported numbers\<close>

lemma round_half_even_near: "\<bar>of_int (round_half_even y) - y\<bar> \<le> 1 / 2"
proof -
  have "of_int \<lfloor>y\<rfloor> \<le> y" "y < of_int \<lfloor>y\<rfloor> + 1"
    by linarith+
  then show ?thesis
    by (auto simp: round_half_even_def Let_def abs_le_iff)
qed

lemma decimal_round_scaled:
  "decimal_round x n * 10 ^ n = of_int (round_half_even (x * 10 ^ n))"
  by (simp add: decimal_round_def)

lemma decimal_round_near: "\<bar>decimal_round x n - x\<bar> \<le> 1 / (2 * 10 ^ n)"
proof -
  have p: "(0::rat) < 10 ^ n" by simp
  have "\<bar>decimal_round x n - x\<bar> * 10 ^ n = \<bar>(decimal_round x n - x) * 10 ^ n\<bar>"
    by (simp add: abs_mult)
  also have "\<dots> = \<bar>decimal_round x n * 10 ^ n - x * 10 ^ n\<bar>"
    by (simp only: left_diff_distrib)
  also have "\<dots> \<le> 1 / 2"
    unfolding decimal_round_scaled by (rule round_half_even_near)
  finally have "\<bar>decimal_round x n - x\<bar> \<le> (1 / 2) / 10 ^ n"
    using p by (simp add: pos_le_divide_eq)
  then show ?thesis by simp
qed

lemma near_tie_up_facts:
  "near_tie_up \<noteq> []"
  "recent_part near_tie_up = take 2 near_tie_up"
  "older_part near_tie_up = drop 2 near_tie_up"
  by (simp_all add: near_tie_up_def recent_part_def older_part_def)

lemma near_tie_up_means:
  "mean_of double_arith focus_score (take 2 near_tie_up) = 2049 / 4096"
  "mean_of double_arith focus_score (drop 2 near_tie_up) = 1 / 2"
  by code_simp+

lemma near_tie_down_facts:
  "near_tie_down \<noteq> []"
  "recent_part near_tie_down = take 2 near_tie_down"
  "older_part near_tie_down = drop 2 near_tie_down"
  by (simp_all add: near_tie_down_def recent_part_def older_part_def)

lemma near_tie_down_means:
  "mean_of double_arith focus_score (take 2 near_tie_down) = 2047 / 4096"
  "mean_of double_arith focus_score (drop 2 near_tie_down) = 1 / 2"
  by code_simp+

lemma py_round_near_tie:
  "py_round double_arith (2049 / 4096) 3 = 1 / 2"
  "py_round double_arith (2047 / 4096) 3 = 1 / 2"
  "py_round double_arith (1 / 2) 3 = 1 / 2"
  by code_simp+

lemma near_tie_up_summary:
  "\<exists>s. summarize double_arith hours utcnow near_tie_up = Inr (Success s) \<and>
     trends_recent_focus s = 1 / 2 \<and> trends_older_focus s = 1 / 2 \<and>
     trends_focus_trend s = ''improving''"
  using summarize_fields [OF near_tie_up_facts(1), of double_arith hours utcnow]
  by (auto simp: near_tie_up_facts near_tie_up_means py_round_near_tie focus_trend_of_def)

lemma near_tie_down_summary:
  "\<exists>s. summarize double_arith hours utcnow near_tie_down = Inr (Success s) \<and>
     trends_recent_focus s = 1 / 2 \<and> trends_older_focus s = 1 / 2 \<and>
     trends_focus_trend s = ''declining''"
  using summarize_fields [OF near_tie_down_facts(1), of double_arith hours utcnow]
  by (auto simp: near_tie_down_facts near_tie_down_means py_round_near_tie focus_trend_of_def)

text \<open>
  C10. For every non-empty window the summary is returned with the three averages and the
  trend fields \<open>recent_focus\<close> and \<open>older_focus\<close> rounded to 3 decimals and the two
  phone-usage totals rounded to 1 decimal: each is the float of the decimal number with that
  many digits that is nearest to the mean, respectively the total, that the code computes,
  a multiple of \<open>10\<^sup>-\<^sup>n\<close> at most half a unit of the last digit away. The direction of
  the trend compares the unrounded means: \<open>improving\<close> exactly when the recent one is
  greater, \<open>declining\<close> exactly when it is smaller. Hence there are windows whose summary
  reports \<open>recent_focus\<close> equal to \<open>older_focus\<close> with direction \<open>improving\<close>, and
  others with direction \<open>declining\<close>.
\<close>

theorem rounded_fields_unrounded_trend:
  "(data \<noteq> [] \<longrightarrow>
      (\<exists>s. summarize ar hours utcnow data = Inr (Success s) \<and>
         averages_focus_score s = fl ar (decimal_round (mean_of ar focus_score data) 3) \<and>
         averages_posture_score s = fl ar (decimal_round (mean_of ar posture_score data) 3) \<and>
         averages_noise_level s = fl ar (decimal_round (mean_of ar noise_level data) 3) \<and>
         trends_recent_focus s =
           fl ar (decimal_round (mean_of ar focus_score (recent_part data)) 3) \<and>
         trends_older_focus s =
           fl ar (decimal_round (mean_of ar focus_score (older_part data)) 3) \<and>
         totals_phone_usage_seconds s =
           fl ar (decimal_round (fsum ar (map phone_usage_seconds data)) 1) \<and>
         totals_phone_usage_minutes s =
           fl ar (decimal_round (fl ar (fsum ar (map phone_usage_seconds data) / 60)) 1) \<and>
         (trends_focus_trend s = ''improving'' \<longleftrightarrow>
            mean_of ar focus_score (older_part data) <
              mean_of ar focus_score (recent_part data)) \<and>
         (trends_focus_trend s = ''declining'' \<longleftrightarrow>
            mean_of ar focus_score (recent_part data) <
              mean_of ar focus_score (older_part data)) \<and>
         (trends_focus_trend s = ''stable'' \<longleftrightarrow>
            mean_of ar focus_score (recent_part data) =
              mean_of ar focus_score (older_part data)))) \<and>
   py_round ar x n = fl ar (decimal_round x n) \<and>
   (\<exists>k::int. decimal_round x n * 10 ^ n = of_int k) \<and>
   \<bar>decimal_round x n - x\<bar> \<le> 1 / (2 * 10 ^ n) \<and>
   (\<exists>s. summarize double_arith hours utcnow near_tie_up = Inr (Success s) \<and>
      trends_recent_focus s = trends_older_focus s \<and> trends_focus_trend s = ''improving'') \<and>
   (\<exists>s. summarize double_arith hours utcnow near_tie_down = Inr (Success s) \<and>
      trends_recent_focus s = trends_older_focus s \<and> trends_focus_trend s = ''declining'')"
proof (intro conjI impI)
  assume "data \<noteq> []"
  let ?r = "mean_of ar focus_score (recent_part data)"
  let ?o = "mean_of ar focus_score (older_part data)"
  from summarize_fields [OF \<open>data \<noteq> []\<close>, of ar hours utcnow] obtain s where
    s: "summarize ar hours utcnow data = Inr (Success s)"
      "averages_focus_score s = py_round ar (mean_of ar focus_score data) 3"
      "averages_posture_score s = py_round ar (mean_of ar posture_score data) 3"
      "averages_noise_level s = py_round ar (mean_of ar noise_level data) 3"
      "trends_recent_focus s = py_round ar ?r 3"
      "trends_older_focus s = py_round ar ?o 3"
      "totals_phone_usage_seconds s = py_round ar (fsum ar (map phone_usage_seconds data)) 1"
      "totals_phone_usage_minutes s =
         py_round ar (fl ar (fsum ar (map phone_usage_seconds data) / 60)) 1"
      "trends_focus_trend s = focus_trend_of ?r ?o"
    by blast
  have trend: "(trends_focus_trend s = ''improving'' \<longleftrightarrow> ?o < ?r) \<and>
      (trends_focus_trend s = ''declining'' \<longleftrightarrow> ?r < ?o) \<and>
      (trends_focus_trend s = ''stable'' \<longleftrightarrow> ?r = ?o)"
    unfolding s(9) by (rule focus_trend_of_cases)
  show "\<exists>s. summarize ar hours utcnow data = Inr (Success s) \<and>
         averages_focus_score s = fl ar (decimal_round (mean_of ar focus_score data) 3) \<and>
         averages_posture_score s = fl ar (decimal_round (mean_of ar posture_score data) 3) \<and>
         averages_noise_level s = fl ar (decimal_round (mean_of ar noise_level data) 3) \<and>
         trends_recent_focus s =
           fl ar (decimal_round (mean_of ar focus_score (recent_part data)) 3) \<and>
         trends_older_focus s =
           fl ar (decimal_round (mean_of ar focus_score (older_part data)) 3) \<and>
         totals_phone_usage_seconds s =
           fl ar (decimal_round (fsum ar (map phone_usage_seconds data)) 1) \<and>
         totals_phone_usage_minutes s =
           fl ar (decimal_round (fl ar (fsum ar (map phone_usage_seconds data) / 60)) 1) \<and>
         (trends_focus_trend s = ''improving'' \<longleftrightarrow>
            mean_of ar focus_score (older_part data) <
              mean_of ar focus_score (recent_part data)) \<and>
         (trends_focus_trend s = ''declining'' \<longleftrightarrow>
            mean_of ar focus_score (recent_part data) <
              mean_of ar focus_score (older_part data)) \<and>
         (trends_focus_trend s = ''stable'' \<longleftrightarrow>
            mean_of ar focus_score (recent_part data) =
              mean_of ar focus_score (older_part data))"
    using s(1-8) trend unfolding py_round_def by (intro exI [of _ s] conjI) blast+
next
  show "py_round ar x n = fl ar (decimal_round x n)"
    by (simp add: py_round_def)
next
  show "\<exists>k::int. decimal_round x n * 10 ^ n = of_int k"
    using decimal_round_scaled by blast
next
  show "\<bar>decimal_round x n - x\<bar> \<le> 1 / (2 * 10 ^ n)"
    by (rule decimal_round_near)
next
  from near_tie_up_summary [of hours utcnow]
  show "\<exists>s. summarize double_arith hours utcnow near_tie_up = Inr (Success s) \<and>
      trends_recent_focus s = trends_older_focus s \<and> trends_focus_trend s = ''improving''"
    by auto
next
  from near_tie_down_summary [of hours utcnow]
  show "\<exists>s. summarize double_arith hours utcnow near_tie_down = Inr (Success s) \<and>
      trends_recent_focus s = trends_older_focus s \<and> trends_focus_trend s = ''declining''"
    by auto
qed

lemma decimal_round_examples:
  "decimal_round (2049 / 4096) 3 = 1 / 2"
  "py_round double_arith (5764607523034235 / 2305843009213693952) 3 =
     3458764513820541 / 1152921504606846976"
  "decimal_round (5764607523034235 / 2305843009213693952) 3 = 3 / 1000"
  by code_simp+

theorem rounded_fields_unrounded_trend_witness:
  "near_tie_up \<noteq> [] \<and>
   (\<exists>s. summarize double_arith 24 [] near_tie_up = Inr (Success s) \<and>
      trends_recent_focus s = 1 / 2 \<and> trends_older_focus s = 1 / 2 \<and>
      trends_focus_trend s = ''improving'') \<and>
   mean_of double_arith focus_score (recent_part near_tie_up) = 2049 / 4096 \<and>
   mean_of double_arith focus_score (older_part near_tie_up) = 1 / 2 \<and>
   decimal_round (2049 / 4096) 3 = 1 / 2 \<and>
   \<bar>decimal_round (2049 / 4096) 3 - 2049 / 4096\<bar> \<le> 1 / (2 * 10 ^ 3) \<and>
   py_round double_arith (5764607523034235 / 2305843009213693952) 3 =
     3458764513820541 / 1152921504606846976 \<and>
   (\<exists>s. summarize double_arith 24 [] near_tie_down = Inr (Success s) \<and>
      trends_recent_focus s = trends_older_focus s \<and> trends_focus_trend s = ''declining'')"
proof -
  have m: "mean_of double_arith focus_score (recent_part near_tie_up) = 2049 / 4096"
    "mean_of double_arith focus_score (older_part near_tie_up) = 1 / 2"
    by (simp_all add: near_tie_up_facts near_tie_up_means)
  have half: "fl double_arith (1 / 2) = 1 / 2"
    by code_simp
  from rounded_fields_unrounded_trend
    [of near_tie_up double_arith 24 "[]" "2049 / 4096" 3]
    near_tie_up_facts(1) m decimal_round_examples half
  show ?thesis
    by auto
qed

subsection \<open>An empty window and a failing source\<close>

lemma map_filter_empty_iff:
  "List.map_filter (data_point ar utcnow) entries = [] \<longleftrightarrow> no_payload entries"
  by (induction entries)
     (auto simp: List.map_filter_simps no_payload_def data_point_def split: option.splits)

lemma generate_sample_data_length: "length (generate_sample_data ar stamp rnd) = 20"
  by (simp add: generate_sample_data_def)

lemma generate_sample_data_nonempty: "generate_sample_data ar stamp rnd \<noteq> []"
  using generate_sample_data_length [of ar stamp rnd] by auto

lemma summarize_total:
  "\<exists>r. summarize ar hours utcnow data = Inr r \<and> (status r = ''no_data'' \<longleftrightarrow> data = []) \<and>
     (data \<noteq> [] \<longrightarrow> (\<exists>s. r = Success s \<and> data_points s = length data))"
proof (cases "data = []")
  case True
  then show ?thesis by (simp add: summarize_def)
next
  case False
  from summarize_fields [OF this, of ar hours utcnow] False show ?thesis
    by auto
qed

text \<open>
  C4 (as the code has it). \<open>get_health_summary\<close> raises for no state of the source. Its
  summary has status \<open>no_data\<close> exactly when the query succeeded and no entry had a
  dictionary payload, so that the sample sequence is empty. When the query raises, or when
  there is no logging client, the sample sequence is the twenty generated demo samples
  and the summary has status \<open>success\<close> with 20 data points: a failing source is not
  treated as an empty sequence.
\<close>

theorem summary_of_source:
  "\<exists>r. get_health_summary ar hours source utcnow stamp rnd = Inr r \<and>
     (status r = ''no_data'' \<longleftrightarrow> (\<exists>entries. source = Entries entries \<and> no_payload entries)) \<and>
     (source = Fetch_raises \<or> source = No_client \<longrightarrow>
        (\<exists>s. r = Success s \<and> data_points s = 20))"
proof (cases source)
  case No_client
  with summarize_total [of ar hours utcnow "generate_sample_data ar stamp rnd"]
    generate_sample_data_nonempty [of ar stamp rnd]
    generate_sample_data_length [of ar stamp rnd]
  show ?thesis
    by (auto simp: get_health_summary_def get_recent_health_data_def)
next
  case (Entries entries)
  with summarize_total [of ar hours utcnow "List.map_filter (data_point ar utcnow) entries"]
  show ?thesis
    by (auto simp: get_health_summary_def get_recent_health_data_def map_filter_empty_iff)
next
  case Fetch_raises
  with summarize_total [of ar hours utcnow "generate_sample_data ar stamp rnd"]
    generate_sample_data_nonempty [of ar stamp rnd]
    generate_sample_data_length [of ar stamp rnd]
  show ?thesis
    by (auto simp: get_health_summary_def get_recent_health_data_def)
qed

theorem summary_of_source_witness:
  "(\<exists>r. get_health_summary double_arith 24 (Entries []) [] demo_stamp demo_draw = Inr r \<and>
      status r = ''no_data'') \<and>
   (\<exists>r. get_health_summary double_arith 24 (Entries [bare_entry]) [] demo_stamp demo_draw =
        Inr r \<and>
      status r = ''no_data'') \<and>
   (\<exists>s. get_health_summary double_arith 24 Fetch_raises [] demo_stamp demo_draw =
        Inr (Success s) \<and>
      data_points s = 20) \<and>
   (\<exists>s. get_health_summary double_arith 24 No_client [] demo_stamp demo_draw =
        Inr (Success s) \<and>
      data_points s = 20)"
proof -
  have n: "no_payload []" "no_payload [bare_entry]"
    by (simp_all add: no_payload_def bare_entry_def)
  from summary_of_source [of double_arith 24 "Entries []" "[]" demo_stamp demo_draw] n(1)
  have "\<exists>r. get_health_summary double_arith 24 (Entries []) [] demo_stamp demo_draw = Inr r \<and>
      status r = ''no_data''"
    by auto
  moreover
  from summary_of_source [of double_arith 24 "Entries [bare_entry]" "[]" demo_stamp demo_draw]
    n(2)
  have "\<exists>r. get_health_summary double_arith 24 (Entries [bare_entry]) [] demo_stamp demo_draw =
        Inr r \<and>
      status r = ''no_data''"
    by auto
  moreover from summary_of_source [of double_arith 24 Fetch_raises "[]" demo_stamp demo_draw]
  have "\<exists>s. get_health_summary double_arith 24 Fetch_raises [] demo_stamp demo_draw =
        Inr (Success s) \<and>
      data_points s = 20"
    by auto
  moreover from summary_of_source [of double_arith 24 No_client "[]" demo_stamp demo_draw]
  have "\<exists>s. get_health_summary double_arith 24 No_client [] demo_stamp demo_draw =
        Inr (Success s) \<and>
      data_points s = 20"
    by auto
  ultimately show ?thesis by blast
qed

text \<open>
  C4 as stated fails when the query raises: the summary is built from the twenty generated
  samples and its status is \<open>success\<close>, not \<open>no_data\<close>.
\<close>

theorem failing_source_counterexample:
  "map_sum id status
     (get_health_summary double_arith 24 Fetch_raises [] demo_stamp demo_draw) =
     Inr ''success'' \<and>
   map_sum id status
     (get_health_summary double_arith 24 (Entries []) [] demo_stamp demo_draw) =
     Inr ''no_data''"
proof -
  obtain r where
    r: "summarize double_arith 24 [] (generate_sample_data double_arith demo_stamp demo_draw) =
      Inr r"
    "status r \<noteq> ''no_data''"
    using summarize_total
      [of double_arith 24 "[]" "generate_sample_data double_arith demo_stamp demo_draw"]
      generate_sample_data_nonempty [of double_arith demo_stamp demo_draw] by auto
  then have "status r = ''success''"
    by (cases r) simp_all
  with r(1) show ?thesis
    by (simp add: get_health_summary_def get_recent_health_data_def summarize_def
          List.map_filter_simps)
qed

subsection \<open>The most frequent recommendations\<close>

lemma first_index_append_mem:
  "x \<in> set xs \<Longrightarrow> first_index (xs @ ys) x = first_index xs x"
  by (induction xs) (auto simp: first_index_def)

lemma first_index_less: "x \<in> set xs \<Longrightarrow> first_index xs x < length xs"
  by (induction xs) (auto simp: first_index_def)

lemma first_index_fresh: "x \<notin> set xs \<Longrightarrow> first_index (xs @ [x]) x = length xs"
  by (induction xs) (auto simp: first_index_def)

lemma dict_incr_fresh: "r \<notin> fst ` set d \<Longrightarrow> dict_incr r d = d @ [(r, 1)]"
  by (induction d) auto

lemma dict_incr_known:
  "distinct (map fst d) \<Longrightarrow> r \<in> fst ` set d \<Longrightarrow>
     dict_incr r d = map (\<lambda>e. if fst e = r then (fst e, snd e + 1) else e) d"
proof (induction d)
  case Nil
  then show ?case by simp
next
  case (Cons e d)
  obtain k c where e: "e = (k, c)" by (cases e)
  show ?case
  proof (cases "k = r")
    case True
    with Cons.prems e have "r \<notin> fst ` set d" by auto
    then have "map (\<lambda>e. if fst e = r then (fst e, snd e + 1) else e) d = d"
      by (induction d) auto
    with True e show ?thesis by simp
  next
    case False
    with Cons e show ?thesis by auto
  qed
qed

lemma counts_of_step:
  assumes "counts_of d seen"
  shows "counts_of (dict_incr r d) (seen @ [r])"
proof -
  have keys: "fst e \<in> set seen" if "e \<in> set d" for e
    using assms that by (auto simp: counts_of_def)
  have ord: "sorted_wrt (\<lambda>a b. first_index (seen @ [r]) (fst a) < first_index (seen @ [r]) (fst b)) d"
  proof (rule sorted_wrt_mono_rel)
    show "sorted_wrt (\<lambda>a b. first_index seen (fst a) < first_index seen (fst b)) d"
      using assms by (simp add: counts_of_def)
  next
    fix x y
    assume "x \<in> set d" "y \<in> set d" "first_index seen (fst x) < first_index seen (fst y)"
    then show "first_index (seen @ [r]) (fst x) < first_index (seen @ [r]) (fst y)"
      using keys by (simp add: first_index_append_mem)
  qed
  show ?thesis
  proof (cases "r \<in> fst ` set d")
  case False
  with assms have fresh: "r \<notin> set seen"
    by (simp add: counts_of_def)
  have "distinct (map fst (d @ [(r, 1)]))"
    using assms False by (simp add: counts_of_def)
  moreover have "fst ` set (d @ [(r, 1)]) = set (seen @ [r])"
    using assms by (auto simp: counts_of_def)
  moreover have "list_all (\<lambda>e. snd e = count_list (seen @ [r]) (fst e)) (d @ [(r, 1)])"
    using assms fresh keys by (auto simp: counts_of_def list_all_iff)
  moreover have "sorted_wrt (\<lambda>a b. first_index (seen @ [r]) (fst a) < first_index (seen @ [r]) (fst b))
      (d @ [(r, 1)])"
  proof -
    have "first_index (seen @ [r]) (fst e) < first_index (seen @ [r]) r"
      if "e \<in> set d" for e
      using keys [OF that] fresh
      by (simp add: first_index_append_mem first_index_fresh first_index_less)
    with ord show ?thesis
      by (simp add: sorted_wrt_append)
  qed
  ultimately show ?thesis
    using False by (simp add: counts_of_def dict_incr_fresh)
next
  case True
  let ?g = "\<lambda>e :: string \<times> nat. if fst e = r then (fst e, snd e + 1) else e"
  have d: "dict_incr r d = map ?g d"
    using assms True by (simp add: counts_of_def dict_incr_known)
  have fg: "fst (?g e) = fst e" for e
    by simp
  have mem: "r \<in> set seen"
    using assms True by (simp add: counts_of_def)
  have mf: "map fst (map ?g d) = map fst d"
    by (simp add: comp_def)
  have "fst ` set (map ?g d) = set (map fst (map ?g d))"
    by (simp only: set_map)
  also have "\<dots> = set seen"
    unfolding mf using assms by (simp add: counts_of_def)
  also have "\<dots> = set (seen @ [r])"
    using mem by auto
  finally have "fst ` set (map ?g d) = set (seen @ [r])" .
  moreover have "distinct (map fst (map ?g d))"
    unfolding mf using assms by (simp add: counts_of_def)
  moreover have "list_all (\<lambda>e. snd e = count_list (seen @ [r]) (fst e)) (map ?g d)"
    using assms by (auto simp: counts_of_def list_all_iff)
  moreover have "sorted_wrt (\<lambda>a b. first_index (seen @ [r]) (fst a) < first_index (seen @ [r]) (fst b))
      (map ?g d)"
    unfolding sorted_wrt_map fg by (rule ord)
  ultimately show ?thesis
    unfolding d by (simp add: counts_of_def)
  qed
qed

lemma rec_counts_snoc: "rec_counts (xs @ [x]) = dict_incr x (rec_counts xs)"
  by (simp add: rec_counts_def)

lemma counts_of_rec_counts: "counts_of (rec_counts all) all"
proof (induction all rule: rev_induct)
  case Nil
  then show ?case by (simp add: counts_of_def rec_counts_def)
next
  case (snoc x xs)
  then show ?case
    unfolding rec_counts_snoc by (rule counts_of_step)
qed

lemma sorted_by_count_reverse_set:
  "set (sorted_by_count_reverse items) = set items"
  "length (sorted_by_count_reverse items) = length items"
  "distinct (sorted_by_count_reverse items) = distinct items"
  by (simp_all add: sorted_by_count_reverse_def)

lemma sorted_by_count_reverse_desc:
  "sorted_wrt (\<lambda>a b. snd b \<le> snd a) (sorted_by_count_reverse items)"
proof -
  have "sorted (map snd (sort_key snd (rev items)))"
    by (rule sorted_sort_key)
  then show ?thesis
    by (simp add: sorted_by_count_reverse_def sorted_wrt_rev sorted_wrt_map)
qed

lemma sorted_by_count_reverse_stable:
  "filter (\<lambda>e. snd e = k) (sorted_by_count_reverse items) = filter (\<lambda>e. snd e = k) items"
  by (simp add: sorted_by_count_reverse_def sort_key_stable flip: rev_filter)

lemma sorted_wrt_filter_nth:
  assumes "sorted_wrt R (filter P ys)" "i < j" "j < length ys" "P (ys ! i)" "P (ys ! j)"
  shows "R (ys ! i) (ys ! j)"
  using assms
proof (induction ys arbitrary: i j)
  case Nil
  then show ?case by simp
next
  case (Cons y ys)
  show ?case
  proof (cases i)
    case 0
    with Cons.prems obtain j' where j: "j = Suc j'" "j' < length ys"
      by (cases j) auto
    with Cons.prems 0 have "ys ! j' \<in> set (filter P ys)"
      by simp
    with Cons.prems 0 j show ?thesis
      by simp
  next
    case (Suc i')
    with Cons.prems obtain j' where j: "j = Suc j'" "i' < j'" "j' < length ys"
      by (cases j) auto
    have "sorted_wrt R (filter P ys)"
      using Cons.prems(1) by (cases "P y") simp_all
    from Cons.IH [OF this j(2,3)] Cons.prems Suc j show ?thesis
      by simp
  qed
qed

lemma sorted_by_count_reverse_ranked:
  assumes "sorted_wrt (\<lambda>a b. first_index all (fst a) < first_index all (fst b)) items"
  shows "sorted_wrt (ranks_before all) (sorted_by_count_reverse items)"
proof -
  let ?ys = "sorted_by_count_reverse items"
  let ?F = "\<lambda>a b. first_index all (fst a) < first_index all (fst b)"
  have "ranks_before all (?ys ! i) (?ys ! j)" if "i < j" "j < length ?ys" for i j
  proof -
    from sorted_by_count_reverse_desc [of items] that
    have le: "snd (?ys ! j) \<le> snd (?ys ! i)"
      by (simp add: sorted_wrt_iff_nth_less)
    show ?thesis
    proof (cases "snd (?ys ! j) = snd (?ys ! i)")
      case False
      with le show ?thesis by (simp add: ranks_before_def)
    next
      case True
      let ?P = "\<lambda>e. snd e = snd (?ys ! i)"
      have "sorted_wrt ?F (filter ?P ?ys)"
        unfolding sorted_by_count_reverse_stable using assms by (rule sorted_wrt_filter)
      from sorted_wrt_filter_nth [OF this that] True
      show ?thesis by (simp add: ranks_before_def)
    qed
  qed
  then show ?thesis
    by (simp add: sorted_wrt_iff_nth_less)
qed

lemma all_recommendations_of_concat:
  "all_recommendations_of data = concat (map recommendations data)"
proof -
  have "foldl (\<lambda>acc entry. acc @ recommendations entry) acc data =
      acc @ concat (map recommendations data)" for acc
    by (induction data arbitrary: acc) simp_all
  then show ?thesis
    by (simp add: all_recommendations_of_def)
qed

text \<open>The full ranking, of which \<open>top_recommendations_of\<close> keeps five.\<close>

lemma ranking_facts:
  fixes all :: "string list"
  defines "ranked \<equiv> sorted_by_count_reverse (rec_counts all)"
  shows "distinct (map fst ranked)" "fst ` set ranked = set all"
    "length ranked = card (set all)"
    "\<forall>e\<in>set ranked. snd e = count_list all (fst e)"
    "sorted_wrt (ranks_before all) ranked"
proof -
  have c: "counts_of (rec_counts all) all"
    by (rule counts_of_rec_counts)
  have inj: "inj_on fst (set (rec_counts all))" and d: "distinct (rec_counts all)"
    using c by (simp_all add: counts_of_def distinct_map)
  show "distinct (map fst ranked)"
    using inj d by (simp add: ranked_def distinct_map sorted_by_count_reverse_set)
  show keys: "fst ` set ranked = set all"
    using c by (simp add: ranked_def sorted_by_count_reverse_set counts_of_def)
  have "length ranked = length (map fst (rec_counts all))"
    by (simp add: ranked_def sorted_by_count_reverse_set)
  also have "\<dots> = card (set (map fst (rec_counts all)))"
    using c by (simp add: counts_of_def distinct_card del: set_map length_map)
  also have "\<dots> = card (set all)"
    using c by (simp add: counts_of_def)
  finally show "length ranked = card (set all)" .
  show "\<forall>e\<in>set ranked. snd e = count_list all (fst e)"
    using c by (simp add: ranked_def sorted_by_count_reverse_set counts_of_def list_all_iff)
  show "sorted_wrt (ranks_before all) ranked"
    unfolding ranked_def using c
    by (intro sorted_by_count_reverse_ranked) (simp add: counts_of_def)
qed

text \<open>
  C9. For every window, \<open>top_recommendations\<close> is computed from the flattened list of
  all recommendations of the samples, the concatenation of their \<open>recommendations\<close>
  lists in the order of the samples: it has at most 5 entries, as many as there are
  different recommendations when these are fewer; each entry pairs a recommendation with
  the number of its occurrences in the flattened list, no recommendation twice; the
  entries are in descending order of count, equal counts in the order in which the
  recommendations were first seen; and every recommendation that is left out ranks after
  every entry. The summary of a non-empty window carries this list.
\<close>

theorem top_recommendations_ranking:
  "all_recommendations_of data = concat (map recommendations data) \<and>
   length (top_recommendations_of data) \<le> 5 \<and>
   length (top_recommendations_of data) =
     min 5 (card (set (concat (map recommendations data)))) \<and>
   distinct (map fst (top_recommendations_of data)) \<and>
   (\<forall>e\<in>set (top_recommendations_of data).
      fst e \<in> set (concat (map recommendations data)) \<and>
      snd e = count_list (concat (map recommendations data)) (fst e)) \<and>
   sorted_wrt (ranks_before (concat (map recommendations data)))
     (top_recommendations_of data) \<and>
   (\<forall>r\<in>set (concat (map recommendations data)).
      r \<notin> fst ` set (top_recommendations_of data) \<longrightarrow>
      (\<forall>e\<in>set (top_recommendations_of data).
         ranks_before (concat (map recommendations data)) e
           (r, count_list (concat (map recommendations data)) r))) \<and>
   (data \<noteq> [] \<longrightarrow>
      (\<exists>s. summarize ar hours utcnow data = Inr (Success s) \<and>
         top_recommendations s = top_recommendations_of data))"
proof -
  define all where "all = concat (map recommendations data)"
  define ranked where "ranked = sorted_by_count_reverse (rec_counts all)"
  define top where "top = top_recommendations_of data"
  have flat: "all_recommendations_of data = all"
    by (simp add: all_def all_recommendations_of_concat)
  have top: "top = take 5 ranked"
    by (simp add: top_def ranked_def flat top_recommendations_of_def)
  note r = ranking_facts [of all, folded ranked_def]
  have sub: "set top \<subseteq> set ranked"
    unfolding top by (rule set_take_subset)
  have 1: "length top \<le> 5"
    by (simp add: top)
  have 2: "length top = min 5 (card (set all))"
    using r(3) by (simp add: top min.commute)
  have 3: "distinct (map fst top)"
    using r(1) by (simp add: top distinct_take flip: take_map)
  have 4: "\<forall>e\<in>set top. fst e \<in> set all \<and> snd e = count_list all (fst e)"
    using r(2,4) sub by auto
  have 5: "sorted_wrt (ranks_before all) top"
    using r(5) by (simp add: top)
  have 6: "\<forall>r\<in>set all. r \<notin> fst ` set top \<longrightarrow>
      (\<forall>e\<in>set top. ranks_before all e (r, count_list all r))"
  proof (intro ballI impI)
    fix x e
    assume x: "x \<in> set all" "x \<notin> fst ` set top" and e: "e \<in> set top"
    from x(1) r(2) obtain c where c: "(x, c) \<in> set ranked"
      by (metis fst_conv imageE surjective_pairing)
    with r(4) have cnt: "c = count_list all x"
      by auto
    have "set ranked = set (take 5 ranked) \<union> set (drop 5 ranked)"
      by (metis append_take_drop_id set_append)
    with c x(2) have "(x, c) \<in> set (drop 5 ranked)"
      unfolding top by force
    moreover have "sorted_wrt (ranks_before all) (take 5 ranked @ drop 5 ranked)"
      using r(5) by simp
    ultimately show "ranks_before all e (x, count_list all x)"
      using e cnt unfolding top sorted_wrt_append by blast
  qed
  have 7: "data \<noteq> [] \<longrightarrow>
      (\<exists>s. summarize ar hours utcnow data = Inr (Success s) \<and> top_recommendations s = top)"
    using summarize_fields [of data ar hours utcnow] unfolding top_def by blast
  from flat 1 2 3 4 5 6 7 show ?thesis
    unfolding all_def top_def by blast
qed

lemma rec_window_top:
  "top_recommendations_of rec_window =
     [(''Brief phone check'', 3), (''Good posture'', 2), (''Focus on alignment'', 1),
      (''Minor shoulder imbalance'', 1), (''Excellent posture!'', 1)]"
  by code_simp

lemma rec_window_all:
  "concat (map recommendations rec_window) =
     [''Focus on alignment'', ''Good posture'', ''Brief phone check'',
      ''Good posture'', ''Brief phone check'', ''Minor shoulder imbalance'',
      ''Excellent posture!'', ''Raise monitor'', ''Take a break'', ''Brief phone check'']"
  "card (set (concat (map recommendations rec_window))) = 7"
  by code_simp+

theorem top_recommendations_ranking_witness:
  "rec_window \<noteq> [] \<and>
   all_recommendations_of rec_window =
     [''Focus on alignment'', ''Good posture'', ''Brief phone check'',
      ''Good posture'', ''Brief phone check'', ''Minor shoulder imbalance'',
      ''Excellent posture!'', ''Raise monitor'', ''Take a break'', ''Brief phone check''] \<and>
   top_recommendations_of rec_window =
     [(''Brief phone check'', 3), (''Good posture'', 2), (''Focus on alignment'', 1),
      (''Minor shoulder imbalance'', 1), (''Excellent posture!'', 1)] \<and>
   length (top_recommendations_of rec_window) =
     min 5 (card (set (concat (map recommendations rec_window)))) \<and>
   card (set (concat (map recommendations rec_window))) = 7 \<and>
   sorted_wrt (ranks_before (concat (map recommendations rec_window)))
     (top_recommendations_of rec_window) \<and>
   (\<exists>s. summarize double_arith 24 [] rec_window = Inr (Success s) \<and>
      top_recommendations s =
        [(''Brief phone check'', 3), (''Good posture'', 2), (''Focus on alignment'', 1),
         (''Minor shoulder imbalance'', 1), (''Excellent posture!'', 1)])"
proof -
  have ne: "rec_window \<noteq> []"
    by (simp add: rec_window_def)
  from top_recommendations_ranking [of rec_window double_arith 24 "[]"] ne
  have "all_recommendations_of rec_window = concat (map recommendations rec_window)"
    "length (top_recommendations_of rec_window) =
      min 5 (card (set (concat (map recommendations rec_window))))"
    "sorted_wrt (ranks_before (concat (map recommendations rec_window)))
      (top_recommendations_of rec_window)"
    "\<exists>s. summarize double_arith 24 [] rec_window = Inr (Success s) \<and>
      top_recommendations s = top_recommendations_of rec_window"
    by blast+
  with ne rec_window_all(2) show ?thesis
    unfolding rec_window_top rec_window_all(1) by blast
qed

end
